theory Spec2Isabelle
  imports Main
begin

section \<open>The contact search of planfix_search_contact.ts\<close>

text \<open>
  A shallow embedding of \<^verbatim>\<open>planfixSearchContact\<close>
  (\<^verbatim>\<open>src/tools/planfix_search_contact.ts\<close>).

  Strings are \<^typ>\<open>string\<close>: each \<^typ>\<open>char\<close> stands for one UTF-16 code unit
  below 256, so the model covers the inputs written in Latin-1, and on those the string
  functions below agree with JavaScript's.

  The collaborators whose sources are not part of the file under study are parameters:
  \<^item> \<open>cfg\<close>: the two numbers of \<^verbatim>\<open>PLANFIX_FIELD_IDS\<close> (0 is falsy);
  \<^item> \<open>remote\<close>: \<^verbatim>\<open>planfixRequest\<close>, a function of the number of calls made
    before and of the filter sent (offset, page size and field list of the request body
    are the same in every call of one search);
  \<^item> \<open>getContactUrl\<close>: the URL builder, which, like any call, may throw;
  \<^item> \<open>customFilters\<close>: the list that \<^verbatim>\<open>extendFiltersWithCustomFields\<close>
    leaves behind; \<open>planfixSearchContact\<close> below is the function from line 175 on,
    given that list;
  \<^item> \<open>extendFilters\<close>: \<^verbatim>\<open>extendFiltersWithCustomFields\<close> itself, which is
    called at lines 169 to 174, before the try block, and may throw;
    \<open>planfixSearchContactWithExtender\<close> is the whole call.
  \<^verbatim>\<open>log\<close> appends an entry to the list of log lines of the state.
\<close>

subsection \<open>Strings\<close>

definition isSpace :: "char \<Rightarrow> bool" where
  \<comment> \<open>\<^verbatim>\<open>\s\<close>, and what \<^verbatim>\<open>trim\<close> removes: TAB, LF, VT, FF, CR, SP, NBSP\<close>
  "isSpace c = (c \<in> set [CHR 0x09, CHR 0x0A, CHR 0x0B, CHR 0x0C, CHR 0x0D, CHR 0x20, CHR 0xA0])"

definition isDigit :: "char \<Rightarrow> bool" where
  "isDigit c = (c \<in> set ''0123456789'')"

definition phoneChar :: "char \<Rightarrow> bool" where
  \<comment> \<open>the class \<^verbatim>\<open>[+\d\s\-()]\<close>\<close>
  "phoneChar c = (c = CHR ''+'' \<or> isDigit c \<or> isSpace c \<or> c = CHR ''-''
                   \<or> c = CHR ''('' \<or> c = CHR '')'')"

definition phonePattern :: "string \<Rightarrow> bool" where
  \<comment> \<open>\<^verbatim>\<open>/^[+\d\s\-()]{5,}$/.test(s)\<close>\<close>
  "phonePattern s = (5 \<le> length s \<and> list_all phoneChar s)"

definition startsWithAt :: "string \<Rightarrow> bool" where
  \<comment> \<open>\<^verbatim>\<open>s.startsWith("@")\<close>\<close>
  "startsWithAt s = (case s of [] \<Rightarrow> False | c # _ \<Rightarrow> c = CHR ''@'')"

definition stripAt :: "string \<Rightarrow> string" where
  \<comment> \<open>\<^verbatim>\<open>s.replace(/^@/, "")\<close>\<close>
  "stripAt s = (case s of [] \<Rightarrow> [] | c # cs \<Rightarrow> if c = CHR ''@'' then cs else s)"

definition lowerChar :: "char \<Rightarrow> char" where
  \<comment> \<open>A to Z, and the capital letters of Latin-1 (0xC0 to 0xDE without the
      multiplication sign 0xD7), move up by 32\<close>
  "lowerChar c =
     (let n = (of_char c :: nat)
      in if (65 \<le> n \<and> n \<le> 90) \<or> (192 \<le> n \<and> n \<le> 222 \<and> n \<noteq> 215)
         then char_of (n + 32) else c)"

definition toLowerCase :: "string \<Rightarrow> string" where
  "toLowerCase s = map lowerChar s"

definition trim :: "string \<Rightarrow> string" where
  "trim s = rev (dropWhile isSpace (rev (dropWhile isSpace s)))"

definition includesSpace :: "string \<Rightarrow> bool" where
  \<comment> \<open>\<^verbatim>\<open>s.includes(" ")\<close>\<close>
  "includesSpace s = (CHR '' '' \<in> set s)"

definition truthyStr :: "string option \<Rightarrow> bool" where
  \<comment> \<open>an optional string in a condition: undefined and the empty string are falsy\<close>
  "truthyStr x = (case x of None \<Rightarrow> False | Some s \<Rightarrow> s \<noteq> [])"

definition strOf :: "string option \<Rightarrow> string" where
  \<comment> \<open>the string behind a truthy optional string\<close>
  "strOf x = (case x of None \<Rightarrow> [] | Some s \<Rightarrow> s)"

subsection \<open>Data\<close>

datatype jsval = JStr string | JNum int | JBool bool | JStrs "string list" | JNull

record FilterType =
  f_type :: int
  f_operator :: string
  f_value :: "jsval option"
  f_field :: "int option"

record SearchArgs =
  a_name :: "string option"
  a_nameTranslated :: "string option"
  a_phone :: "string option"
  a_email :: "string option"
  a_telegram :: "string option"

record field_ids =
  \<comment> \<open>\<^verbatim>\<open>PLANFIX_FIELD_IDS.telegram\<close> and \<^verbatim>\<open>PLANFIX_FIELD_IDS.telegramCustom\<close>\<close>
  ids_telegram :: int
  ids_telegramCustom :: int

record customField =
  \<comment> \<open>an entry \<^verbatim>\<open>{field: {id}, value}\<close> of \<^verbatim>\<open>customFieldData\<close>\<close>
  cf_id :: int
  cf_value :: jsval

record ContactResponse =
  c_id :: int
  c_name :: "string option"
  c_lastname :: "string option"
  c_telegram :: "string option"
  c_customFieldData :: "customField list option"

record SearchResult =
  contactId :: int
  url :: "string option"
  firstName :: "string option"
  lastName :: "string option"
  error :: "string option"
  found :: bool
  telegram :: "string option"

datatype js_error = Error string | NonError

datatype outcome =
    Resolved "ContactResponse list option"
      \<comment> \<open>the response object and its optional \<^verbatim>\<open>contacts\<close>\<close>
  | Rejected js_error
      \<comment> \<open>whatever is thrown inside the try block of \<^verbatim>\<open>searchWithFilter\<close>\<close>

datatype log_entry =
    FilterError string
  | TelegramMismatch string string
  | OuterError string

record state =
  st_contactId :: "int option"
  st_result :: "SearchResult option"
  st_calls :: "FilterType list"
  st_logs :: "log_entry list"

type_synonym remote = "nat \<Rightarrow> FilterType \<Rightarrow> outcome"

definition errorMessageOf :: "js_error \<Rightarrow> string" where
  \<comment> \<open>\<^verbatim>\<open>error instanceof Error ? error.message : "Unknown error"\<close>\<close>
  "errorMessageOf e = (case e of Error m \<Rightarrow> m | NonError \<Rightarrow> ''Unknown error'')"

definition falsyId :: "int option \<Rightarrow> bool" where
  \<comment> \<open>\<^verbatim>\<open>!contactId\<close> for \<^verbatim>\<open>number | null\<close>\<close>
  "falsyId x = (case x of None \<Rightarrow> True | Some n \<Rightarrow> n = 0)"

definition positiveId :: "int option \<Rightarrow> bool" where
  \<comment> \<open>\<^verbatim>\<open>contactId > 0\<close>\<close>
  "positiveId x = (case x of None \<Rightarrow> False | Some n \<Rightarrow> 0 < n)"

subsection \<open>The filters\<close>

definition sanitizePhone :: "string option \<Rightarrow> string option" where
  \<comment> \<open>line 43: an unusable phone becomes the empty string\<close>
  "sanitizePhone phone =
     (if truthyStr phone \<and> (startsWithAt (strOf phone) \<or> \<not> phonePattern (strOf phone))
      then Some [] else phone)"

definition strFilter :: "int \<Rightarrow> string option \<Rightarrow> FilterType" where
  "strFilter ty v =
     \<lparr>f_type = ty, f_operator = ''equal'', f_value = map_option JStr v, f_field = None\<rparr>"

definition byName :: "SearchArgs \<Rightarrow> FilterType option" where
  "byName a = Some (strFilter 4001 (a_name a))"

definition byNameTranslated :: "SearchArgs \<Rightarrow> FilterType option" where
  "byNameTranslated a = Some (strFilter 4001 (a_nameTranslated a))"

definition byPhone :: "SearchArgs \<Rightarrow> FilterType option" where
  "byPhone a = Some (strFilter 4003 (sanitizePhone (a_phone a)))"

definition byEmail :: "SearchArgs \<Rightarrow> FilterType option" where
  "byEmail a = Some (strFilter 4026 (a_email a))"

definition telegramFilter :: "field_ids \<Rightarrow> SearchArgs \<Rightarrow> string \<Rightarrow> FilterType option" where
  \<comment> \<open>the shape shared by the five telegram entries: the custom field when it is
      configured, else the built-in one, else nothing\<close>
  "telegramFilter cfg a v =
     (if truthyStr (a_telegram a) then
        if ids_telegramCustom cfg \<noteq> 0 then
          Some \<lparr>f_type = 4101, f_operator = ''equal'', f_value = Some (JStr v),
                f_field = Some (ids_telegramCustom cfg)\<rparr>
        else if ids_telegram cfg \<noteq> 0 then
          Some \<lparr>f_type = 4226, f_operator = ''equal'', f_value = Some (JStr v),
                f_field = None\<rparr>
        else None
      else None)"

definition byTelegram :: "field_ids \<Rightarrow> SearchArgs \<Rightarrow> FilterType option" where
  "byTelegram cfg a = telegramFilter cfg a (toLowerCase (stripAt (strOf (a_telegram a))))"

definition byTelegramWithAt :: "field_ids \<Rightarrow> SearchArgs \<Rightarrow> FilterType option" where
  "byTelegramWithAt cfg a =
     telegramFilter cfg a (CHR ''@'' # toLowerCase (stripAt (strOf (a_telegram a))))"

definition byTelegramOriginalCase :: "field_ids \<Rightarrow> SearchArgs \<Rightarrow> FilterType option" where
  "byTelegramOriginalCase cfg a = telegramFilter cfg a (stripAt (strOf (a_telegram a)))"

definition byTelegramOriginalCaseWithAt :: "field_ids \<Rightarrow> SearchArgs \<Rightarrow> FilterType option" where
  "byTelegramOriginalCaseWithAt cfg a =
     telegramFilter cfg a
       (if startsWithAt (strOf (a_telegram a)) then strOf (a_telegram a)
        else CHR ''@'' # strOf (a_telegram a))"

definition byTelegramUrl :: "field_ids \<Rightarrow> SearchArgs \<Rightarrow> FilterType option" where
  "byTelegramUrl cfg a =
     telegramFilter cfg a (''https://t.me/'' @ stripAt (strOf (a_telegram a)))"

subsection \<open>One search attempt\<close>

definition extractTelegramFromContact :: "field_ids \<Rightarrow> ContactResponse \<Rightarrow> string" where
  "extractTelegramFromContact cfg contact =
     (if ids_telegramCustom cfg \<noteq> 0 then
        (case c_customFieldData contact of
           None \<Rightarrow> []
         | Some fs \<Rightarrow>
             (case find (\<lambda>f. cf_id f = ids_telegramCustom cfg) fs of
                None \<Rightarrow> []
              | Some tgField \<Rightarrow>
                  (case cf_value tgField of
                     JStr v \<Rightarrow> toLowerCase (stripAt v)
                   | _ \<Rightarrow> [])))
      else if ids_telegram cfg \<noteq> 0 \<and> truthyStr (c_telegram contact) then
        toLowerCase (stripAt (strOf (c_telegram contact)))
      else [])"

definition emptyResult :: SearchResult where
  "emptyResult =
     \<lparr>contactId = 0, url = None, firstName = None, lastName = None, error = None,
      found = False, telegram = None\<rparr>"

definition searchWithFilter ::
  "field_ids \<Rightarrow> remote \<Rightarrow> FilterType \<Rightarrow> state \<Rightarrow> SearchResult \<times> state" where
  "searchWithFilter cfg remote f s =
     (let s' = s\<lparr>st_calls := st_calls s @ [f]\<rparr>
      in case remote (length (st_calls s)) f of
           Resolved (Some (contact # _)) \<Rightarrow>
             (let contactTelegram = extractTelegramFromContact cfg contact
              in (emptyResult\<lparr>contactId := c_id contact, firstName := c_name contact,
                    lastName := c_lastname contact, found := True,
                    telegram := (if contactTelegram = [] then None
                                 else Some contactTelegram)\<rparr>, s'))
         | Resolved _ \<Rightarrow> (emptyResult, s')
         | Rejected e \<Rightarrow>
             (emptyResult\<lparr>error := Some (errorMessageOf e)\<rparr>,
              s'\<lparr>st_logs := st_logs s' @ [FilterError (errorMessageOf e)]\<rparr>))"

definition attempt :: "field_ids \<Rightarrow> remote \<Rightarrow> FilterType \<Rightarrow> state \<Rightarrow> state" where
  \<comment> \<open>the pair of statements
      \<^verbatim>\<open>result = await searchWithFilter(f); contactId = result.contactId;\<close>\<close>
  "attempt cfg remote f s =
     (case searchWithFilter cfg remote f s of
        (r, s') \<Rightarrow> s'\<lparr>st_result := Some r, st_contactId := Some (contactId r)\<rparr>)"

subsection \<open>The stages of the cascade\<close>

definition emailStage :: "field_ids \<Rightarrow> remote \<Rightarrow> SearchArgs \<Rightarrow> state \<Rightarrow> state" where
  "emailStage cfg remote a s =
     (case byEmail a of
        Some f \<Rightarrow> if falsyId (st_contactId s) \<and> truthyStr (a_email a)
                  then attempt cfg remote f s else s
      | None \<Rightarrow> s)"

definition phoneStage :: "field_ids \<Rightarrow> remote \<Rightarrow> SearchArgs \<Rightarrow> state \<Rightarrow> state" where
  "phoneStage cfg remote a s =
     (case byPhone a of
        Some f \<Rightarrow> if falsyId (st_contactId s) \<and> truthyStr (sanitizePhone (a_phone a))
                  then attempt cfg remote f s else s
      | None \<Rightarrow> s)"

definition crossCheck :: "SearchArgs \<Rightarrow> state \<Rightarrow> state" where
  \<comment> \<open>lines 247 to 257, and again 267 to 277\<close>
  "crossCheck a s =
     (case st_result s of
        None \<Rightarrow> s
      | Some r \<Rightarrow>
          if truthyStr (a_telegram a) \<and> positiveId (st_contactId s) \<and> truthyStr (telegram r)
          then
            (let expectedTelegram = toLowerCase (stripAt (strOf (a_telegram a)));
                 foundTelegram = strOf (telegram r)
             in if expectedTelegram \<noteq> foundTelegram
                then s\<lparr>st_logs := st_logs s
                          @ [TelegramMismatch (strOf (a_telegram a)) (strOf (telegram r))],
                       st_contactId := None, st_result := None\<rparr>
                else s)
          else s)"

definition nameStage :: "field_ids \<Rightarrow> remote \<Rightarrow> SearchArgs \<Rightarrow> state \<Rightarrow> state" where
  "nameStage cfg remote a s =
     (case byName a of
        Some f \<Rightarrow> if falsyId (st_contactId s) \<and> truthyStr (a_name a)
                     \<and> includesSpace (trim (strOf (a_name a)))
                  then crossCheck a (attempt cfg remote f s) else s
      | None \<Rightarrow> s)"

definition nameTranslatedStage :: "field_ids \<Rightarrow> remote \<Rightarrow> SearchArgs \<Rightarrow> state \<Rightarrow> state" where
  "nameTranslatedStage cfg remote a s =
     (case byNameTranslated a of
        Some f \<Rightarrow> if falsyId (st_contactId s) \<and> truthyStr (a_nameTranslated a)
                     \<and> includesSpace (trim (strOf (a_nameTranslated a)))
                  then crossCheck a (attempt cfg remote f s) else s
      | None \<Rightarrow> s)"

definition tryFilter :: "field_ids \<Rightarrow> remote \<Rightarrow> FilterType option \<Rightarrow> state \<Rightarrow> state" where
  \<comment> \<open>\<^verbatim>\<open>if (!contactId && filters.x) { ... }\<close>\<close>
  "tryFilter cfg remote fo s =
     (case fo of
        Some f \<Rightarrow> if falsyId (st_contactId s) then attempt cfg remote f s else s
      | None \<Rightarrow> s)"

definition telegramStage :: "field_ids \<Rightarrow> remote \<Rightarrow> SearchArgs \<Rightarrow> state \<Rightarrow> state" where
  "telegramStage cfg remote a s =
     (if falsyId (st_contactId s) \<and> truthyStr (a_telegram a) then
        (let s1 = (case byTelegram cfg a of
                     Some f \<Rightarrow> attempt cfg remote f s
                   | None \<Rightarrow> s);
             s2 = tryFilter cfg remote (byTelegramWithAt cfg a) s1;
             s3 = tryFilter cfg remote (byTelegramOriginalCase cfg a) s2;
             s4 = tryFilter cfg remote (byTelegramOriginalCaseWithAt cfg a) s3
         in tryFilter cfg remote (byTelegramUrl cfg a) s4)
      else s)"

fun customLoop :: "field_ids \<Rightarrow> remote \<Rightarrow> FilterType list \<Rightarrow> state \<Rightarrow> state" where
  "customLoop cfg remote [] s = s"
| "customLoop cfg remote (cf # cfs) s =
     (if \<not> falsyId (st_contactId s) then s
      else customLoop cfg remote cfs (attempt cfg remote cf s))"

definition customStage :: "field_ids \<Rightarrow> remote \<Rightarrow> FilterType list \<Rightarrow> state \<Rightarrow> state" where
  "customStage cfg remote customFilters s =
     (if falsyId (st_contactId s) \<and> customFilters \<noteq> []
      then customLoop cfg remote customFilters s else s)"

subsection \<open>The whole search\<close>

definition initState :: state where
  "initState = \<lparr>st_contactId = None, st_result = None, st_calls = [], st_logs = []\<rparr>"

definition cascade ::
  "field_ids \<Rightarrow> remote \<Rightarrow> FilterType list \<Rightarrow> SearchArgs \<Rightarrow> state" where
  \<comment> \<open>lines 235 to 307\<close>
  "cascade cfg remote customFilters a =
     customStage cfg remote customFilters
       (telegramStage cfg remote a
         (nameTranslatedStage cfg remote a
           (nameStage cfg remote a
             (phoneStage cfg remote a
               (emailStage cfg remote a initState)))))"

definition finalize :: "(int \<Rightarrow> js_error + string) \<Rightarrow> state \<Rightarrow> js_error + SearchResult" where
  \<comment> \<open>lines 308 to 318: \<^verbatim>\<open>contactId || 0\<close> turns null into 0;
      \<open>Inl\<close> is an exception of the URL builder\<close>
  "finalize getContactUrl s =
     (let cid = (case st_contactId s of None \<Rightarrow> 0 | Some n \<Rightarrow> n)
      in case getContactUrl cid of
           Inl e \<Rightarrow> Inl e
         | Inr u \<Rightarrow>
             Inr \<lparr>contactId = cid, url = Some u,
                  firstName = (case st_result s of None \<Rightarrow> None | Some r \<Rightarrow> firstName r),
                  lastName = (case st_result s of None \<Rightarrow> None | Some r \<Rightarrow> lastName r),
                  error = None, found = (0 < cid), telegram = None\<rparr>)"

definition outerCatch :: "js_error \<Rightarrow> SearchResult" where
  \<comment> \<open>the object returned at lines 323 to 327\<close>
  "outerCatch e = emptyResult\<lparr>error := Some (errorMessageOf e)\<rparr>"

definition planfixSearchContact ::
  "field_ids \<Rightarrow> (int \<Rightarrow> js_error + string) \<Rightarrow> remote \<Rightarrow> FilterType list \<Rightarrow> SearchArgs
     \<Rightarrow> (js_error + SearchResult) \<times> state" where
  \<comment> \<open>\<open>Inl\<close> would be an exception that reaches the caller\<close>
  "planfixSearchContact cfg getContactUrl remote customFilters a =
     (let s = cascade cfg remote customFilters a
      in case finalize getContactUrl s of
           Inr r \<Rightarrow> (Inr r, s)
         | Inl e \<Rightarrow>
             (Inr (outerCatch e),
              s\<lparr>st_logs := st_logs s @ [OuterError (errorMessageOf e)]\<rparr>))"

definition planfixSearchContactWithExtender ::
  "field_ids \<Rightarrow> (int \<Rightarrow> js_error + string) \<Rightarrow> remote
     \<Rightarrow> (SearchArgs \<Rightarrow> js_error + FilterType list) \<Rightarrow> SearchArgs
     \<Rightarrow> (js_error + SearchResult) \<times> state" where
  \<comment> \<open>lines 37 to 329: an exception of the extender is outside the try block and
      reaches the caller, before any call or log line\<close>
  "planfixSearchContactWithExtender cfg getContactUrl remote extendFilters a =
     (case extendFilters a of
        Inl e \<Rightarrow> (Inl e, initState)
      | Inr customFilters \<Rightarrow> planfixSearchContact cfg getContactUrl remote customFilters a)"

subsection \<open>Notions used in the statements\<close>


definition telegramVariants :: "string \<Rightarrow> string list" where
  \<comment> \<open>the five values in the words of the specification: lowercase without @, lowercase
      with @, original case without @, original case with @ ensured, URL form\<close>
  "telegramVariants t =
     [toLowerCase (stripAt t),
      ''@'' @ toLowerCase (stripAt t),
      stripAt t,
      (if startsWithAt t then t else ''@'' @ t),
      ''https://t.me/'' @ stripAt t]"

definition telegramField :: "field_ids \<Rightarrow> string \<Rightarrow> FilterType" where
  \<comment> \<open>an equality filter on the configured telegram field\<close>
  "telegramField cfg v =
     (if ids_telegramCustom cfg \<noteq> 0
      then \<lparr>f_type = 4101, f_operator = ''equal'', f_value = Some (JStr v),
            f_field = Some (ids_telegramCustom cfg)\<rparr>
      else \<lparr>f_type = 4226, f_operator = ''equal'', f_value = Some (JStr v), f_field = None\<rparr>)"


definition rejectedByCheck :: "field_ids \<Rightarrow> SearchArgs \<Rightarrow> ContactResponse \<Rightarrow> bool" where
  \<comment> \<open>the condition under which lines 247 to 257 drop a match of a name stage\<close>
  "rejectedByCheck cfg a c =
     (truthyStr (a_telegram a) \<and> 0 < c_id c \<and> extractTelegramFromContact cfg c \<noteq> []
      \<and> extractTelegramFromContact cfg c \<noteq> toLowerCase (stripAt (strOf (a_telegram a))))"

definition settlingContact ::
  "field_ids \<Rightarrow> SearchArgs \<Rightarrow> bool \<Rightarrow> outcome \<Rightarrow> ContactResponse option" where
  \<comment> \<open>the contact with which a response ends the cascade, if it does: a first contact
      with an id other than 0 that, after a name stage (\<open>checked\<close>), the cross-check
      keeps; a failed call never does\<close>
  "settlingContact cfg a checked out =
     (case out of
        Resolved (Some (c # _)) \<Rightarrow>
          if c_id c \<noteq> 0 \<and> (if checked then \<not> rejectedByCheck cfg a c else True)
          then Some c else None
      | _ \<Rightarrow> None)"

fun runPlan ::
  "field_ids \<Rightarrow> remote \<Rightarrow> SearchArgs \<Rightarrow> nat \<Rightarrow> (bool \<times> FilterType) list
     \<Rightarrow> FilterType list \<times> ContactResponse option" where
  \<comment> \<open>sending the filters of a plan in order, from call number \<open>n\<close> on, up to the
      first response that ends the cascade: the filters sent and the contact found\<close>
  "runPlan cfg remote a n [] = ([], None)"
| "runPlan cfg remote a n ((checked, f) # fs) =
     (case settlingContact cfg a checked (remote n f) of
        Some c \<Rightarrow> ([f], Some c)
      | None \<Rightarrow> (f # fst (runPlan cfg remote a (Suc n) fs),
                 snd (runPlan cfg remote a (Suc n) fs)))"

declare runPlan.simps [simp del]

definition plan :: "field_ids \<Rightarrow> FilterType list \<Rightarrow> SearchArgs \<Rightarrow> (bool \<times> FilterType) list" where
  \<comment> \<open>the applicable stages in the order of the specification, each with its filters;
      the flag marks the two name stages, whose match is cross-checked\<close>
  "plan cfg customFilters a =
     (if truthyStr (a_email a) then [(False, strFilter 4026 (a_email a))] else [])
     @ (if truthyStr (sanitizePhone (a_phone a))
        then [(False, strFilter 4003 (sanitizePhone (a_phone a)))] else [])
     @ (if truthyStr (a_name a) \<and> includesSpace (trim (strOf (a_name a)))
        then [(True, strFilter 4001 (a_name a))] else [])
     @ (if truthyStr (a_nameTranslated a) \<and> includesSpace (trim (strOf (a_nameTranslated a)))
        then [(True, strFilter 4001 (a_nameTranslated a))] else [])
     @ (if truthyStr (a_telegram a) \<and> (ids_telegramCustom cfg \<noteq> 0 \<or> ids_telegram cfg \<noteq> 0)
        then map (\<lambda>v. (False, telegramField cfg v)) (telegramVariants (strOf (a_telegram a)))
        else [])
     @ map (Pair False) customFilters"

definition agrees :: "state \<Rightarrow> FilterType list \<Rightarrow> FilterType list \<times> ContactResponse option \<Rightarrow> bool" where
  \<comment> \<open>a state reached from the calls \<open>before\<close> by a run: its calls, and either no
      contact id or the id and names of the contact found\<close>
  "agrees s before run =
     (st_calls s = before @ fst run
      \<and> (case snd run of
            None \<Rightarrow> falsyId (st_contactId s)
          | Some c \<Rightarrow> c_id c \<noteq> 0 \<and> st_contactId s = Some (c_id c)
              \<and> map_option firstName (st_result s) = Some (c_name c)
              \<and> map_option lastName (st_result s) = Some (c_lastname c)))"

subsection \<open>Sample data, after the mocks of the test file\<close>

definition cfgBuiltin :: field_ids where
  "cfgBuiltin = \<lparr>ids_telegram = 131, ids_telegramCustom = 0\<rparr>"

definition cfgCustom :: field_ids where
  "cfgCustom = \<lparr>ids_telegram = 0, ids_telegramCustom = 77\<rparr>"

definition constUrl :: "int \<Rightarrow> js_error + string" where
  "constUrl i = Inr ''https://example.com/contact''"

definition failingUrl :: "int \<Rightarrow> js_error + string" where
  "failingUrl i = Inl (Error ''no account'')"

definition always :: "outcome \<Rightarrow> remote" where
  "always out n f = out"

definition nthCall :: "nat \<Rightarrow> outcome \<Rightarrow> remote" where
  \<comment> \<open>call number \<open>k\<close> gets \<open>out\<close>, every other call an empty list\<close>
  "nthCall k out n f = (if n = k then out else Resolved (Some []))"

definition failFirst :: "outcome \<Rightarrow> remote" where
  "failFirst out n f = (if n = 0 then Rejected (Error ''API fail'') else out)"

definition noArgs :: SearchArgs where
  "noArgs = \<lparr>a_name = None, a_nameTranslated = None, a_phone = None, a_email = None,
             a_telegram = None\<rparr>"

definition john :: ContactResponse where
  "john = \<lparr>c_id = 1, c_name = Some ''John'', c_lastname = Some ''Doe'', c_telegram = None,
           c_customFieldData = None\<rparr>"

definition fooBar :: ContactResponse where
  "fooBar = \<lparr>c_id = 2, c_name = Some ''Foo'', c_lastname = Some ''Bar'',
             c_telegram = Some ''@foo'', c_customFieldData = None\<rparr>"

definition annLee :: ContactResponse where
  "annLee = \<lparr>c_id = 7, c_name = Some ''Ann'', c_lastname = Some ''Lee'', c_telegram = None,
             c_customFieldData = Some [\<lparr>cf_id = 5, cf_value = JNum 3\<rparr>,
                                       \<lparr>cf_id = 77, cf_value = JStr ''@ann_lee''\<rparr>]\<rparr>"

definition annFoo :: ContactResponse where
  "annFoo = \<lparr>c_id = 9, c_name = Some ''Ann'', c_lastname = Some ''Lee'',
             c_telegram = Some ''@other'', c_customFieldData = None\<rparr>"

definition noExtraFilters :: "SearchArgs \<Rightarrow> js_error + FilterType list" where
  "noExtraFilters a = Inr []"

definition failingExtender :: "SearchArgs \<Rightarrow> js_error + FilterType list" where
  "failingExtender a = Inl (Error ''bad custom field'')"

lemmas string_defs =
  isSpace_def isDigit_def phoneChar_def phonePattern_def startsWithAt_def stripAt_def
  lowerChar_def toLowerCase_def trim_def includesSpace_def truthyStr_def strOf_def

lemmas filter_defs =
  sanitizePhone_def strFilter_def byName_def byNameTranslated_def byPhone_def byEmail_def
  telegramFilter_def byTelegram_def byTelegramWithAt_def byTelegramOriginalCase_def
  byTelegramOriginalCaseWithAt_def byTelegramUrl_def

lemmas stage_defs =
  errorMessageOf_def falsyId_def positiveId_def extractTelegramFromContact_def
  emptyResult_def searchWithFilter_def attempt_def emailStage_def phoneStage_def
  crossCheck_def nameStage_def nameTranslatedStage_def tryFilter_def telegramStage_def
  customStage_def initState_def cascade_def finalize_def outerCatch_def
  planfixSearchContact_def Let_def

section \<open>Properties\<close>

subsection \<open>Auxiliary facts\<close>

lemma searchWithFilter_calls:
  "st_calls (snd (searchWithFilter cfg remote f s)) = st_calls s @ [f]"
  by (simp add: searchWithFilter_def Let_def split: outcome.split option.split list.split)

lemma attempt_calls: "st_calls (attempt cfg remote f s) = st_calls s @ [f]"
  using searchWithFilter_calls [of cfg remote f s]
  by (cases "searchWithFilter cfg remote f s") (simp add: attempt_def)


lemma crossCheck_calls: "st_calls (crossCheck a s) = st_calls s"
  by (simp add: crossCheck_def Let_def split: option.split)

lemma attempt_all:
  "list_all P (st_calls s) \<Longrightarrow> P f \<Longrightarrow> list_all P (st_calls (attempt cfg remote f s))"
  by (simp add: attempt_calls)

lemma emailStage_all:
  "list_all P (st_calls s) \<Longrightarrow> (truthyStr (a_email a) \<Longrightarrow> P (strFilter 4026 (a_email a))) \<Longrightarrow>
   list_all P (st_calls (emailStage cfg remote a s))"
  by (simp add: emailStage_def byEmail_def attempt_calls)

lemma phoneStage_all:
  "list_all P (st_calls s) \<Longrightarrow>
   (truthyStr (sanitizePhone (a_phone a)) \<Longrightarrow> P (strFilter 4003 (sanitizePhone (a_phone a)))) \<Longrightarrow>
   list_all P (st_calls (phoneStage cfg remote a s))"
  by (simp add: phoneStage_def byPhone_def attempt_calls)

lemma nameStage_all:
  "list_all P (st_calls s) \<Longrightarrow>
   (truthyStr (a_name a) \<Longrightarrow> includesSpace (trim (strOf (a_name a))) \<Longrightarrow>
      P (strFilter 4001 (a_name a))) \<Longrightarrow>
   list_all P (st_calls (nameStage cfg remote a s))"
  by (simp add: nameStage_def byName_def attempt_calls crossCheck_calls)

lemma nameTranslatedStage_all:
  "list_all P (st_calls s) \<Longrightarrow>
   (truthyStr (a_nameTranslated a) \<Longrightarrow> includesSpace (trim (strOf (a_nameTranslated a))) \<Longrightarrow>
      P (strFilter 4001 (a_nameTranslated a))) \<Longrightarrow>
   list_all P (st_calls (nameTranslatedStage cfg remote a s))"
  by (simp add: nameTranslatedStage_def byNameTranslated_def attempt_calls crossCheck_calls)

lemma tryFilter_all:
  "list_all P (st_calls s) \<Longrightarrow> (\<And>f. fo = Some f \<Longrightarrow> P f) \<Longrightarrow>
   list_all P (st_calls (tryFilter cfg remote fo s))"
  by (cases fo) (simp_all add: tryFilter_def attempt_calls)

lemma telegramStage_all:
  assumes "list_all P (st_calls s)" and tg: "\<And>v f. telegramFilter cfg a v = Some f \<Longrightarrow> P f"
  shows "list_all P (st_calls (telegramStage cfg remote a s))"
proof -
  have s1: "list_all P (st_calls (case byTelegram cfg a of
                                     Some f \<Rightarrow> attempt cfg remote f s | None \<Rightarrow> s))"
    using assms(1) tg [of "toLowerCase (stripAt (strOf (a_telegram a)))"]
    by (cases "byTelegram cfg a") (simp_all add: attempt_calls byTelegram_def)
  show ?thesis
    unfolding telegramStage_def Let_def
    using assms(1) s1
    by (auto intro!: tryFilter_all tg
             simp: byTelegramWithAt_def byTelegramOriginalCase_def
                   byTelegramOriginalCaseWithAt_def byTelegramUrl_def)
qed

lemma customLoop_all:
  "list_all P (st_calls s) \<Longrightarrow> list_all P cfs \<Longrightarrow>
   list_all P (st_calls (customLoop cfg remote cfs s))"
  by (induction cfs arbitrary: s) (simp_all add: attempt_calls)

lemma customStage_all:
  "list_all P (st_calls s) \<Longrightarrow> list_all P cfs \<Longrightarrow>
   list_all P (st_calls (customStage cfg remote cfs s))"
  by (simp add: customStage_def customLoop_all)

lemma cascade_all:
  assumes "truthyStr (a_email a) \<Longrightarrow> P (strFilter 4026 (a_email a))"
    and "truthyStr (sanitizePhone (a_phone a)) \<Longrightarrow> P (strFilter 4003 (sanitizePhone (a_phone a)))"
    and "truthyStr (a_name a) \<Longrightarrow> includesSpace (trim (strOf (a_name a))) \<Longrightarrow>
           P (strFilter 4001 (a_name a))"
    and "truthyStr (a_nameTranslated a) \<Longrightarrow> includesSpace (trim (strOf (a_nameTranslated a))) \<Longrightarrow>
           P (strFilter 4001 (a_nameTranslated a))"
    and "\<And>v f. telegramFilter cfg a v = Some f \<Longrightarrow> P f"
    and "list_all P cfs"
  shows "list_all P (st_calls (cascade cfg remote cfs a))"
  unfolding cascade_def
  by (intro customStage_all telegramStage_all nameTranslatedStage_all nameStage_all
        phoneStage_all emailStage_all assms) (simp_all add: initState_def)

lemma planfixSearchContact_calls:
  "st_calls (snd (planfixSearchContact cfg g remote cfs a)) = st_calls (cascade cfg remote cfs a)"
  by (simp add: planfixSearchContact_def Let_def split: sum.split)

lemma includesSpace_trim: "includesSpace (trim s) \<Longrightarrow> includesSpace s"
  by (auto simp: includesSpace_def trim_def dest!: set_dropWhileD)

lemma telegramFilter_type:
  "telegramFilter cfg a v = Some f \<Longrightarrow> f_type f = 4101 \<or> f_type f = 4226"
  by (auto simp: telegramFilter_def split: if_splits)

lemma crossCheck_phone: "crossCheck (a\<lparr>a_phone := x\<rparr>) = crossCheck a"
  by (rule ext) (simp add: crossCheck_def Let_def cong: option.case_cong if_cong)

lemma phone_irrelevant:
  "emailStage cfg remote (a\<lparr>a_phone := x\<rparr>) = emailStage cfg remote a"
  "nameStage cfg remote (a\<lparr>a_phone := x\<rparr>) = nameStage cfg remote a"
  "nameTranslatedStage cfg remote (a\<lparr>a_phone := x\<rparr>) = nameTranslatedStage cfg remote a"
  "telegramStage cfg remote (a\<lparr>a_phone := x\<rparr>) = telegramStage cfg remote a"
  by (rule ext,
      simp add: emailStage_def nameStage_def nameTranslatedStage_def telegramStage_def
        byEmail_def byName_def byNameTranslated_def byTelegram_def byTelegramWithAt_def
        byTelegramOriginalCase_def byTelegramOriginalCaseWithAt_def byTelegramUrl_def
        telegramFilter_def crossCheck_phone)+

lemma stage_skip:
  assumes "\<not> falsyId (st_contactId s)"
  shows "emailStage cfg remote a s = s" and "phoneStage cfg remote a s = s"
    and "nameStage cfg remote a s = s" and "nameTranslatedStage cfg remote a s = s"
    and "telegramStage cfg remote a s = s" and "customStage cfg remote cfs s = s"
    and "tryFilter cfg remote fo s = s"
  using assms
  by (simp_all add: emailStage_def phoneStage_def nameStage_def nameTranslatedStage_def
        telegramStage_def customStage_def tryFilter_def split: option.split)

lemma includesSpace_isSpace: "includesSpace s \<Longrightarrow> list_ex isSpace s"
  by (auto simp: includesSpace_def list_ex_iff isSpace_def)

lemma telegramFilter_Some:
  "truthyStr (a_telegram a) \<Longrightarrow> ids_telegramCustom cfg \<noteq> 0 \<or> ids_telegram cfg \<noteq> 0 \<Longrightarrow>
   telegramFilter cfg a v = Some (telegramField cfg v)"
  by (auto simp: telegramFilter_def telegramField_def)



lemma attempt_matched:
  "remote (length (st_calls s)) f = Resolved (Some (c # cs)) \<Longrightarrow>
   attempt cfg remote f s
     = s\<lparr>st_calls := st_calls s @ [f],
         st_result := Some (emptyResult\<lparr>contactId := c_id c, firstName := c_name c,
           lastName := c_lastname c, found := True,
           telegram := (if extractTelegramFromContact cfg c = [] then None
                        else Some (extractTelegramFromContact cfg c))\<rparr>),
         st_contactId := Some (c_id c)\<rparr>"
  by (simp add: attempt_def searchWithFilter_def Let_def)

lemma crossCheck_matched:
  "st_result s = Some r \<Longrightarrow> st_contactId s = Some n \<Longrightarrow> truthyStr (a_telegram a) \<Longrightarrow>
   crossCheck a s
     = (if 0 < n \<and> truthyStr (telegram r)
           \<and> toLowerCase (stripAt (strOf (a_telegram a))) \<noteq> strOf (telegram r)
        then s\<lparr>st_logs := st_logs s
                  @ [TelegramMismatch (strOf (a_telegram a)) (strOf (telegram r))],
               st_contactId := None, st_result := None\<rparr>
        else s)"
  by (simp add: crossCheck_def positiveId_def Let_def)

lemma nameLike_checked:
  assumes "remote (length (st_calls s)) f = Resolved (Some (c # cs))"
    and "truthyStr (a_telegram a)"
  shows "crossCheck a (attempt cfg remote f s)
     = (if 0 < c_id c \<and> extractTelegramFromContact cfg c \<noteq> []
           \<and> extractTelegramFromContact cfg c \<noteq> toLowerCase (stripAt (strOf (a_telegram a)))
        then s\<lparr>st_calls := st_calls s @ [f],
               st_logs := st_logs s
                  @ [TelegramMismatch (strOf (a_telegram a)) (extractTelegramFromContact cfg c)],
               st_contactId := None, st_result := None\<rparr>
        else attempt cfg remote f s)"
proof -
  let ?r = "emptyResult\<lparr>contactId := c_id c, firstName := c_name c,
           lastName := c_lastname c, found := True,
           telegram := (if extractTelegramFromContact cfg c = [] then None
                        else Some (extractTelegramFromContact cfg c))\<rparr>"
  note am = attempt_matched [where remote = remote and s = s and f = f and c = c
      and cs = cs and cfg = cfg, OF assms(1)]
  have r: "st_result (attempt cfg remote f s) = Some ?r"
    and n: "st_contactId (attempt cfg remote f s) = Some (c_id c)"
    by (simp_all add: am)
  show ?thesis
    unfolding crossCheck_matched [OF r n assms(2)]
    by (auto simp: am truthyStr_def strOf_def)
qed

lemma runPlan_settled_append:
  "snd (runPlan cfg remote a n xs) = Some c \<Longrightarrow>
   runPlan cfg remote a n (xs @ ys) = runPlan cfg remote a n xs"
  by (induction xs arbitrary: n) (auto simp: runPlan.simps split: option.splits)

lemma runPlan_unsettled_length:
  "snd (runPlan cfg remote a n xs) = None \<Longrightarrow> length (fst (runPlan cfg remote a n xs)) = length xs"
  by (induction xs arbitrary: n) (auto simp: runPlan.simps split: option.splits)

lemma runPlan_unsettled_append:
  "snd (runPlan cfg remote a n xs) = None \<Longrightarrow>
   runPlan cfg remote a n (xs @ ys)
     = (fst (runPlan cfg remote a n xs) @ fst (runPlan cfg remote a (n + length xs) ys),
        snd (runPlan cfg remote a (n + length xs) ys))"
  by (induction xs arbitrary: n) (auto simp: runPlan.simps split: option.splits)

lemma agrees_then:
  assumes skip: "\<And>s. \<not> falsyId (st_contactId s) \<Longrightarrow> stage s = s"
    and run: "\<And>s. falsyId (st_contactId s) \<Longrightarrow>
                agrees (stage s) (st_calls s) (runPlan cfg remote a (length (st_calls s)) ys)"
    and before: "agrees s before (runPlan cfg remote a (length before) xs)"
  shows "agrees (stage s) before (runPlan cfg remote a (length before) (xs @ ys))"
proof (cases "snd (runPlan cfg remote a (length before) xs)")
  case None
  with before have f: "falsyId (st_contactId s)"
    and c: "st_calls s = before @ fst (runPlan cfg remote a (length before) xs)"
    by (simp_all add: agrees_def)
  have l: "length (st_calls s) = length before + length xs"
    using c runPlan_unsettled_length [OF None] by simp
  have r: "agrees (stage s) (st_calls s)
             (runPlan cfg remote a (length before + length xs) ys)"
    using run [OF f] by (simp only: l)
  show ?thesis
    using r c by (simp add: runPlan_unsettled_append [OF None] agrees_def)
next
  case (Some c)
  with before have "\<not> falsyId (st_contactId s)"
    by (simp add: agrees_def falsyId_def)
  then show ?thesis
    using before by (simp add: skip runPlan_settled_append [OF Some])
qed

lemma attempt_agrees:
  "agrees (attempt cfg remote f s) (st_calls s)
     (runPlan cfg remote a (length (st_calls s)) [(False, f)])"
  by (simp add: agrees_def attempt_def searchWithFilter_def settlingContact_def falsyId_def
        emptyResult_def Let_def runPlan.simps split: outcome.split option.split list.split)

lemma checked_attempt_agrees:
  "agrees (crossCheck a (attempt cfg remote f s)) (st_calls s)
     (runPlan cfg remote a (length (st_calls s)) [(True, f)])"
proof (cases "remote (length (st_calls s)) f")
  case (Resolved cso)
  show ?thesis
  proof (cases cso)
    case None
    with Resolved show ?thesis
      by (simp add: agrees_def attempt_def searchWithFilter_def settlingContact_def
            falsyId_def positiveId_def emptyResult_def crossCheck_def Let_def runPlan.simps)
  next
    case (Some cs)
    show ?thesis
    proof (cases cs)
      case Nil
      with Resolved Some show ?thesis
        by (simp add: agrees_def attempt_def searchWithFilter_def settlingContact_def
              falsyId_def positiveId_def emptyResult_def crossCheck_def Let_def runPlan.simps)
    next
      case (Cons c rest)
      with Resolved Some show ?thesis
        by (auto simp: agrees_def attempt_def searchWithFilter_def settlingContact_def
              falsyId_def positiveId_def emptyResult_def crossCheck_def Let_def runPlan.simps
              rejectedByCheck_def truthyStr_def strOf_def)
    qed
  qed
next
  case (Rejected e)
  then show ?thesis
    by (simp add: agrees_def attempt_def searchWithFilter_def settlingContact_def
          falsyId_def positiveId_def emptyResult_def crossCheck_def Let_def runPlan.simps)
qed

lemma agrees_nothing:
  "falsyId (st_contactId s) \<Longrightarrow> agrees s (st_calls s) (runPlan cfg remote a n [])"
  by (simp add: agrees_def runPlan.simps)

lemma emailStage_agrees:
  "falsyId (st_contactId s) \<Longrightarrow>
   agrees (emailStage cfg remote a s) (st_calls s)
     (runPlan cfg remote a (length (st_calls s))
        (if truthyStr (a_email a) then [(False, strFilter 4026 (a_email a))] else []))"
  using attempt_agrees [of cfg remote "strFilter 4026 (a_email a)" s a]
  by (simp add: emailStage_def byEmail_def agrees_nothing)

lemma phoneStage_agrees:
  "falsyId (st_contactId s) \<Longrightarrow>
   agrees (phoneStage cfg remote a s) (st_calls s)
     (runPlan cfg remote a (length (st_calls s))
        (if truthyStr (sanitizePhone (a_phone a))
         then [(False, strFilter 4003 (sanitizePhone (a_phone a)))] else []))"
  using attempt_agrees [of cfg remote "strFilter 4003 (sanitizePhone (a_phone a))" s a]
  by (simp add: phoneStage_def byPhone_def agrees_nothing)

lemma nameStage_agrees:
  "falsyId (st_contactId s) \<Longrightarrow>
   agrees (nameStage cfg remote a s) (st_calls s)
     (runPlan cfg remote a (length (st_calls s))
        (if truthyStr (a_name a) \<and> includesSpace (trim (strOf (a_name a)))
         then [(True, strFilter 4001 (a_name a))] else []))"
  using checked_attempt_agrees [of a cfg remote "strFilter 4001 (a_name a)" s]
  by (simp add: nameStage_def byName_def agrees_nothing)

lemma nameTranslatedStage_agrees:
  "falsyId (st_contactId s) \<Longrightarrow>
   agrees (nameTranslatedStage cfg remote a s) (st_calls s)
     (runPlan cfg remote a (length (st_calls s))
        (if truthyStr (a_nameTranslated a) \<and> includesSpace (trim (strOf (a_nameTranslated a)))
         then [(True, strFilter 4001 (a_nameTranslated a))] else []))"
  using checked_attempt_agrees [of a cfg remote "strFilter 4001 (a_nameTranslated a)" s]
  by (simp add: nameTranslatedStage_def byNameTranslated_def agrees_nothing)

lemma tryFilter_agrees:
  "falsyId (st_contactId s) \<Longrightarrow>
   agrees (tryFilter cfg remote (Some f) s) (st_calls s)
     (runPlan cfg remote a (length (st_calls s)) [(False, f)])"
  using attempt_agrees [of cfg remote f s a] by (simp add: tryFilter_def)

lemma tryFilter_then:
  "agrees s before (runPlan cfg remote a (length before) xs) \<Longrightarrow>
   agrees (tryFilter cfg remote (Some f) s) before
     (runPlan cfg remote a (length before) (xs @ [(False, f)]))"
  by (rule agrees_then [where stage = "tryFilter cfg remote (Some f)"])
     (simp_all add: stage_skip tryFilter_agrees)

lemma telegramStage_agrees:
  assumes f: "falsyId (st_contactId s)"
  shows "agrees (telegramStage cfg remote a s) (st_calls s)
     (runPlan cfg remote a (length (st_calls s))
        (if truthyStr (a_telegram a) \<and> (ids_telegramCustom cfg \<noteq> 0 \<or> ids_telegram cfg \<noteq> 0)
         then map (\<lambda>v. (False, telegramField cfg v)) (telegramVariants (strOf (a_telegram a)))
         else []))"
proof (cases "truthyStr (a_telegram a) \<and> (ids_telegramCustom cfg \<noteq> 0 \<or> ids_telegram cfg \<noteq> 0)")
  case True
  then have t: "truthyStr (a_telegram a)"
    and c: "ids_telegramCustom cfg \<noteq> 0 \<or> ids_telegram cfg \<noteq> 0" by simp_all
  note tf = telegramFilter_Some [OF t c]
  let ?v = "telegramVariants (strOf (a_telegram a))"
  let ?f = "\<lambda>i. telegramField cfg (?v ! i)"
  have s1: "agrees (attempt cfg remote (?f 0) s) (st_calls s)
              (runPlan cfg remote a (length (st_calls s)) [(False, ?f 0)])"
    by (rule attempt_agrees)
  note s2 = tryFilter_then [OF s1, of "?f 1"]
  note s3 = tryFilter_then [OF s2, of "?f 2"]
  note s4 = tryFilter_then [OF s3, of "?f 3"]
  note s5 = tryFilter_then [OF s4, of "?f 4"]
  show ?thesis
    using s5 f True
    by (simp add: telegramStage_def byTelegram_def byTelegramWithAt_def
          byTelegramOriginalCase_def byTelegramOriginalCaseWithAt_def byTelegramUrl_def tf
          telegramVariants_def Let_def cong: if_cong)
next
  case False
  then have "telegramStage cfg remote a s = s"
    by (auto simp: telegramStage_def byTelegram_def byTelegramWithAt_def
          byTelegramOriginalCase_def byTelegramOriginalCaseWithAt_def byTelegramUrl_def
          telegramFilter_def tryFilter_def Let_def)
  with f False show ?thesis by (auto simp: agrees_nothing)
qed

lemma customLoop_skip: "\<not> falsyId (st_contactId s) \<Longrightarrow> customLoop cfg remote cfs s = s"
  by (cases cfs) simp_all

lemma customLoop_agrees:
  "falsyId (st_contactId s) \<Longrightarrow>
   agrees (customLoop cfg remote cfs s) (st_calls s)
     (runPlan cfg remote a (length (st_calls s)) (map (Pair False) cfs))"
proof (induction cfs arbitrary: s)
  case Nil
  then show ?case by (simp add: agrees_nothing)
next
  case (Cons cf cfs)
  have one: "agrees (attempt cfg remote cf s) (st_calls s)
               (runPlan cfg remote a (length (st_calls s)) [(False, cf)])"
    by (rule attempt_agrees)
  have "agrees (customLoop cfg remote cfs (attempt cfg remote cf s)) (st_calls s)
          (runPlan cfg remote a (length (st_calls s)) ([(False, cf)] @ map (Pair False) cfs))"
    by (rule agrees_then [where stage = "customLoop cfg remote cfs", OF _ _ one])
       (simp_all add: customLoop_skip Cons.IH)
  with Cons.prems show ?case by simp
qed

lemma customStage_agrees:
  "falsyId (st_contactId s) \<Longrightarrow>
   agrees (customStage cfg remote cfs s) (st_calls s)
     (runPlan cfg remote a (length (st_calls s)) (map (Pair False) cfs))"
  using customLoop_agrees [of s cfg remote cfs a]
  by (cases cfs) (simp_all add: customStage_def agrees_nothing)

lemma cascade_agrees:
  "agrees (cascade cfg remote cfs a) [] (runPlan cfg remote a 0 (plan cfg cfs a))"
proof -
  have s0: "agrees initState [] (runPlan cfg remote a (length ([] :: FilterType list)) [])"
    by (simp add: agrees_def initState_def falsyId_def runPlan.simps)
  note s1 = agrees_then [where stage = "emailStage cfg remote a", OF _ _ s0,
                OF stage_skip(1) emailStage_agrees]
  note s2 = agrees_then [where stage = "phoneStage cfg remote a", OF _ _ s1,
                OF stage_skip(2) phoneStage_agrees]
  note s3 = agrees_then [where stage = "nameStage cfg remote a", OF _ _ s2,
                OF stage_skip(3) nameStage_agrees]
  note s4 = agrees_then [where stage = "nameTranslatedStage cfg remote a", OF _ _ s3,
                OF stage_skip(4) nameTranslatedStage_agrees]
  note s5 = agrees_then [where stage = "telegramStage cfg remote a", OF _ _ s4,
                OF stage_skip(5) telegramStage_agrees]
  note s6 = agrees_then [where stage = "customStage cfg remote cfs", OF _ _ s5,
                OF stage_skip(6) customStage_agrees]
  show ?thesis
    using s6 by (simp add: cascade_def plan_def)
qed

subsection \<open>The claims\<close>

text \<open>
  C1 (amended). The result of one search attempt carries the telegram extracted from the
  first contact of the response, or nothing when the extraction gives the empty string;
  the extraction is the value of the configured custom field (when that value is a string)
  or of the built-in field, in lowercase and without one leading @. The result that
  planfixSearchContact returns to its caller never has a telegram field.
\<close>

theorem telegram_only_in_attempt_result:
  "(remote (length (st_calls s)) f = Resolved (Some (c # cs)) \<longrightarrow>
      telegram (fst (searchWithFilter cfg remote f s))
        = (if extractTelegramFromContact cfg c = [] then None
           else Some (extractTelegramFromContact cfg c)))
   \<and> (ids_telegramCustom cfg \<noteq> 0 \<and> c_customFieldData c = Some fs
       \<and> find (\<lambda>x. cf_id x = ids_telegramCustom cfg) fs = Some tg \<and> cf_value tg = JStr v
       \<longrightarrow> extractTelegramFromContact cfg c = toLowerCase (stripAt v))
   \<and> (ids_telegramCustom cfg = 0 \<and> ids_telegram cfg \<noteq> 0 \<and> c_telegram c = Some t \<and> t \<noteq> []
       \<longrightarrow> extractTelegramFromContact cfg c = toLowerCase (stripAt t))
   \<and> (\<exists>r. fst (planfixSearchContact cfg g remote cfs a) = Inr r \<and> telegram r = None)"
proof -
  have one: "remote (length (st_calls s)) f = Resolved (Some (c # cs)) \<longrightarrow>
      telegram (fst (searchWithFilter cfg remote f s))
        = (if extractTelegramFromContact cfg c = [] then None
           else Some (extractTelegramFromContact cfg c))"
    by (simp add: searchWithFilter_def Let_def)
  have custom: "ids_telegramCustom cfg \<noteq> 0 \<and> c_customFieldData c = Some fs
       \<and> find (\<lambda>x. cf_id x = ids_telegramCustom cfg) fs = Some tg \<and> cf_value tg = JStr v
       \<longrightarrow> extractTelegramFromContact cfg c = toLowerCase (stripAt v)"
    by (simp add: extractTelegramFromContact_def)
  have builtin: "ids_telegramCustom cfg = 0 \<and> ids_telegram cfg \<noteq> 0 \<and> c_telegram c = Some t
       \<and> t \<noteq> [] \<longrightarrow> extractTelegramFromContact cfg c = toLowerCase (stripAt t)"
    by (simp add: extractTelegramFromContact_def truthyStr_def strOf_def)
  have final: "\<exists>r. fst (planfixSearchContact cfg g remote cfs a) = Inr r \<and> telegram r = None"
    by (simp add: planfixSearchContact_def finalize_def outerCatch_def emptyResult_def Let_def
             split: sum.split)
  from one custom builtin final show ?thesis by blast
qed

theorem telegram_only_in_attempt_result_witness:
  "always (Resolved (Some [annLee])) (length (st_calls initState)) (strFilter 4026 (Some ''ann@example.com''))
     = Resolved (Some [annLee])
   \<and> telegram (fst (searchWithFilter cfgCustom (always (Resolved (Some [annLee])))
                      (strFilter 4026 (Some ''ann@example.com'')) initState))
       = Some ''ann_lee''
   \<and> find (\<lambda>x. cf_id x = ids_telegramCustom cfgCustom)
        [\<lparr>cf_id = 5, cf_value = JNum 3\<rparr>, \<lparr>cf_id = 77, cf_value = JStr ''@ann_lee''\<rparr>]
       = Some \<lparr>cf_id = 77, cf_value = JStr ''@ann_lee''\<rparr>
   \<and> extractTelegramFromContact cfgCustom annLee = ''ann_lee''
   \<and> c_telegram fooBar = Some ''@foo''
   \<and> extractTelegramFromContact cfgBuiltin fooBar = ''foo''"
proof -
  have lc: "toLowerCase ''ann_lee'' = ''ann_lee''" "toLowerCase ''foo'' = ''foo''"
    by code_simp+
  show ?thesis
    using telegram_only_in_attempt_result [of "always (Resolved (Some [annLee]))" initState
        "strFilter 4026 (Some ''ann@example.com'')" annLee "[]" cfgCustom
        "[\<lparr>cf_id = 5, cf_value = JNum 3\<rparr>, \<lparr>cf_id = 77, cf_value = JStr ''@ann_lee''\<rparr>]"
        "\<lparr>cf_id = 77, cf_value = JStr ''@ann_lee''\<rparr>" "''@ann_lee''"]
      telegram_only_in_attempt_result [of "always (Resolved (Some [fooBar]))" initState
        "strFilter 4026 (Some ''ann@example.com'')" fooBar "[]" cfgBuiltin
        "[]" "\<lparr>cf_id = 77, cf_value = JStr ''@ann_lee''\<rparr>" "''@ann_lee''" "''@foo''"]
    by (simp add: always_def annLee_def fooBar_def cfgCustom_def cfgBuiltin_def stripAt_def lc
          initState_def)
qed

text \<open>
  The returned result has no telegram even when the matched record has one: a search by
  email that finds a contact whose telegram is \<^verbatim>\<open>@foo\<close> returns the contact
  without it.
\<close>

theorem telegram_not_returned_counterexample:
  "extractTelegramFromContact cfgBuiltin fooBar = ''foo''
   \<and> fst (planfixSearchContact cfgBuiltin constUrl (always (Resolved (Some [fooBar]))) []
            (noArgs\<lparr>a_email := Some ''foo@example.com''\<rparr>))
       = Inr \<lparr>contactId = 2, url = Some ''https://example.com/contact'',
              firstName = Some ''Foo'', lastName = Some ''Bar'', error = None, found = True,
              telegram = None\<rparr>"
proof -
  have lc: "toLowerCase ''foo'' = ''foo''" by code_simp
  have e: "extractTelegramFromContact cfgBuiltin fooBar = ''foo''"
    by (simp add: extractTelegramFromContact_def cfgBuiltin_def fooBar_def truthyStr_def
          strOf_def stripAt_def lc)
  show ?thesis
    using e
    by (simp add: planfixSearchContact_def cascade_def emailStage_def phoneStage_def
          nameStage_def nameTranslatedStage_def telegramStage_def customStage_def
          attempt_def searchWithFilter_def finalize_def emptyResult_def initState_def
          falsyId_def Let_def filter_defs truthyStr_def strOf_def always_def noArgs_def
          constUrl_def)
       (simp add: fooBar_def)
qed

text \<open>
  C2. Whatever the input and whatever the remote answers, the result that
  planfixSearchContact returns has \<open>found\<close> true exactly when its \<open>contactId\<close> is
  above 0.
\<close>

theorem found_iff_contactId_positive:
  "\<exists>r. fst (planfixSearchContact cfg g remote cfs a) = Inr r
       \<and> found r = (0 < contactId r)"
  by (simp add: planfixSearchContact_def finalize_def outerCatch_def emptyResult_def Let_def
           split: sum.split)

theorem found_iff_contactId_positive_witness:
  "fst (planfixSearchContact cfgBuiltin constUrl (always (Resolved (Some [john]))) []
          (noArgs\<lparr>a_email := Some ''john@example.com''\<rparr>))
     = Inr \<lparr>contactId = 1, url = Some ''https://example.com/contact'',
            firstName = Some ''John'', lastName = Some ''Doe'', error = None, found = True,
            telegram = None\<rparr>"
  using found_iff_contactId_positive [of cfgBuiltin constUrl "always (Resolved (Some [john]))"
          "[]" "noArgs\<lparr>a_email := Some ''john@example.com''\<rparr>"]
  by (simp add: stage_defs filter_defs string_defs cfgBuiltin_def constUrl_def always_def noArgs_def john_def)

text \<open>
  C3 (amended). When the name stage, or the translated-name stage, runs with a telegram
  value supplied and its response has a first contact with a positive id whose extracted
  telegram is not empty and differs from the supplied telegram in lowercase without its
  leading @, the match is dropped: the mismatch is logged, contact id and result are reset,
  and the guard of the following stages is open again.
\<close>

theorem name_match_rejected_on_telegram_mismatch:
  "(falsyId (st_contactId s) \<and> truthyStr (a_name a)
      \<and> includesSpace (trim (strOf (a_name a))) \<and> truthyStr (a_telegram a)
      \<and> remote (length (st_calls s)) (strFilter 4001 (a_name a)) = Resolved (Some (c # cs))
      \<and> 0 < c_id c \<and> extractTelegramFromContact cfg c \<noteq> []
      \<and> extractTelegramFromContact cfg c \<noteq> toLowerCase (stripAt (strOf (a_telegram a)))
    \<longrightarrow> nameStage cfg remote a s
          = s\<lparr>st_calls := st_calls s @ [strFilter 4001 (a_name a)],
              st_logs := st_logs s
                 @ [TelegramMismatch (strOf (a_telegram a)) (extractTelegramFromContact cfg c)],
              st_contactId := None, st_result := None\<rparr>
        \<and> falsyId (st_contactId (nameStage cfg remote a s)))
   \<and> (falsyId (st_contactId s) \<and> truthyStr (a_nameTranslated a)
      \<and> includesSpace (trim (strOf (a_nameTranslated a))) \<and> truthyStr (a_telegram a)
      \<and> remote (length (st_calls s)) (strFilter 4001 (a_nameTranslated a))
          = Resolved (Some (c # cs))
      \<and> 0 < c_id c \<and> extractTelegramFromContact cfg c \<noteq> []
      \<and> extractTelegramFromContact cfg c \<noteq> toLowerCase (stripAt (strOf (a_telegram a)))
    \<longrightarrow> nameTranslatedStage cfg remote a s
          = s\<lparr>st_calls := st_calls s @ [strFilter 4001 (a_nameTranslated a)],
              st_logs := st_logs s
                 @ [TelegramMismatch (strOf (a_telegram a)) (extractTelegramFromContact cfg c)],
              st_contactId := None, st_result := None\<rparr>
        \<and> falsyId (st_contactId (nameTranslatedStage cfg remote a s)))"
  by (simp add: nameStage_def nameTranslatedStage_def byName_def byNameTranslated_def
        nameLike_checked falsyId_def)

theorem name_match_rejected_on_telegram_mismatch_witness:
  "includesSpace (trim ''Ann Lee'')
   \<and> extractTelegramFromContact cfgBuiltin annFoo = ''other''
   \<and> nameStage cfgBuiltin (nthCall 0 (Resolved (Some [annFoo])))
        (noArgs\<lparr>a_name := Some ''Ann Lee'', a_telegram := Some ''@ann_lee''\<rparr>) initState
       = \<lparr>st_contactId = None, st_result = None,
          st_calls = [strFilter 4001 (Some ''Ann Lee'')],
          st_logs = [TelegramMismatch ''@ann_lee'' ''other'']\<rparr>
   \<and> nameTranslatedStage cfgBuiltin (nthCall 0 (Resolved (Some [annFoo])))
        (noArgs\<lparr>a_nameTranslated := Some ''Ann Lee'', a_telegram := Some ''@ann_lee''\<rparr>)
        initState
       = \<lparr>st_contactId = None, st_result = None,
          st_calls = [strFilter 4001 (Some ''Ann Lee'')],
          st_logs = [TelegramMismatch ''@ann_lee'' ''other'']\<rparr>
   \<and> fst (planfixSearchContact cfgBuiltin constUrl (nthCall 0 (Resolved (Some [annFoo]))) []
            (noArgs\<lparr>a_name := Some ''Ann Lee'', a_telegram := Some ''@ann_lee''\<rparr>))
       = Inr \<lparr>contactId = 0, url = Some ''https://example.com/contact'', firstName = None,
              lastName = None, error = None, found = False, telegram = None\<rparr>"
proof -
  have lc: "toLowerCase ''other'' = ''other''" "toLowerCase ''ann_lee'' = ''ann_lee''"
    by code_simp+
  have e: "extractTelegramFromContact cfgBuiltin annFoo = ''other''"
    by (simp add: extractTelegramFromContact_def cfgBuiltin_def annFoo_def truthyStr_def
          strOf_def stripAt_def lc)
  have t: "includesSpace (trim ''Ann Lee'')"
    by (simp add: includesSpace_def trim_def isSpace_def)
  have run: "fst (planfixSearchContact cfgBuiltin constUrl (nthCall 0 (Resolved (Some [annFoo]))) []
            (noArgs\<lparr>a_name := Some ''Ann Lee'', a_telegram := Some ''@ann_lee''\<rparr>))
       = Inr \<lparr>contactId = 0, url = Some ''https://example.com/contact'', firstName = None,
              lastName = None, error = None, found = False, telegram = None\<rparr>"
    by (simp add: stage_defs filter_defs cfgBuiltin_def constUrl_def nthCall_def noArgs_def annFoo_def annFoo_def truthyStr_def strOf_def
          stripAt_def startsWithAt_def lc t)
  show ?thesis
    using name_match_rejected_on_telegram_mismatch [of initState
        "noArgs\<lparr>a_name := Some ''Ann Lee'', a_telegram := Some ''@ann_lee''\<rparr>"
        "nthCall 0 (Resolved (Some [annFoo]))" annFoo "[]" cfgBuiltin]
      name_match_rejected_on_telegram_mismatch [of initState
        "noArgs\<lparr>a_nameTranslated := Some ''Ann Lee'', a_telegram := Some ''@ann_lee''\<rparr>"
        "nthCall 0 (Resolved (Some [annFoo]))" annFoo "[]" cfgBuiltin]
      e t run
    by (simp add: falsyId_def initState_def truthyStr_def strOf_def nthCall_def stripAt_def lc
          noArgs_def annFoo_def)
qed

text \<open>
  Without the condition that the extracted telegram is not empty the statement fails: a
  name match on a contact that has no telegram is kept, although the empty extraction
  differs from the supplied handle.
\<close>

theorem name_match_without_telegram_counterexample:
  "extractTelegramFromContact cfgBuiltin john = []
   \<and> toLowerCase (stripAt ''@ann_lee'') = ''ann_lee''
   \<and> planfixSearchContact cfgBuiltin constUrl (always (Resolved (Some [john]))) []
        (noArgs\<lparr>a_name := Some ''John Doe'', a_telegram := Some ''@ann_lee''\<rparr>)
       = (Inr \<lparr>contactId = 1, url = Some ''https://example.com/contact'',
              firstName = Some ''John'', lastName = Some ''Doe'', error = None, found = True,
              telegram = None\<rparr>,
          \<lparr>st_contactId = Some 1,
            st_result = Some \<lparr>contactId = 1, url = None, firstName = Some ''John'',
              lastName = Some ''Doe'', error = None, found = True, telegram = None\<rparr>,
            st_calls = [strFilter 4001 (Some ''John Doe'')], st_logs = []\<rparr>)"
proof -
  have lc: "toLowerCase ''ann_lee'' = ''ann_lee''" by code_simp
  have t: "includesSpace (trim ''John Doe'')"
    by (simp add: includesSpace_def trim_def isSpace_def)
  show ?thesis
    by (simp add: stage_defs filter_defs cfgBuiltin_def constUrl_def always_def noArgs_def john_def truthyStr_def strOf_def
          stripAt_def startsWithAt_def lc t)
qed



text \<open>
  C5 (amended). When the custom-field filters have been built, the call returns a result
  object, whatever the remote and the URL builder do. A remote call that throws is caught
  inside its own attempt, which logs the message and reports "not found" with the message
  as \<open>error\<close>; it never ends the cascade, which sends the filters of the applicable
  stages in order up to the first response that settles the search. The returned result is
  that contact, or "not found" with \<open>contactId\<close> 0 when no response settles it.
\<close>

theorem remote_failures_caught_cascade_proceeds:
  "(extendFilters a = Inr cfs \<longrightarrow>
      (\<exists>r. fst (planfixSearchContactWithExtender cfg g remote extendFilters a) = Inr r)
      \<and> st_calls (snd (planfixSearchContactWithExtender cfg g remote extendFilters a))
          = fst (runPlan cfg remote a 0 (plan cfg cfs a))
      \<and> (snd (runPlan cfg remote a 0 (plan cfg cfs a)) = Some c \<and> g (c_id c) = Inr u \<longrightarrow>
           fst (planfixSearchContactWithExtender cfg g remote extendFilters a)
             = Inr \<lparr>contactId = c_id c, url = Some u, firstName = c_name c,
                    lastName = c_lastname c, error = None, found = (0 < c_id c),
                    telegram = None\<rparr>)
      \<and> (snd (runPlan cfg remote a 0 (plan cfg cfs a)) = None \<longrightarrow>
           (\<exists>r. fst (planfixSearchContactWithExtender cfg g remote extendFilters a) = Inr r
                \<and> contactId r = 0 \<and> \<not> found r)))
   \<and> settlingContact cfg a checked (Rejected e) = None
   \<and> (remote (length (st_calls s)) f = Rejected e \<longrightarrow>
        searchWithFilter cfg remote f s
          = (emptyResult\<lparr>error := Some (errorMessageOf e)\<rparr>,
             s\<lparr>st_calls := st_calls s @ [f],
               st_logs := st_logs s @ [FilterError (errorMessageOf e)]\<rparr>))"
proof -
  let ?run = "runPlan cfg remote a 0 (plan cfg cfs a)"
  let ?s = "cascade cfg remote cfs a"
  have ag: "agrees ?s [] ?run" by (rule cascade_agrees)
  have calls: "st_calls ?s = fst ?run" using ag by (simp add: agrees_def)
  have returns: "\<exists>r. fst (planfixSearchContact cfg g remote cfs a) = Inr r"
    by (simp add: planfixSearchContact_def Let_def split: sum.split)
  have hit: "fst (planfixSearchContact cfg g remote cfs a)
             = Inr \<lparr>contactId = c_id c, url = Some u, firstName = c_name c,
                    lastName = c_lastname c, error = None, found = (0 < c_id c),
                    telegram = None\<rparr>"
    if "snd ?run = Some c" and "g (c_id c) = Inr u"
  proof -
    from ag that(1) have i: "st_contactId ?s = Some (c_id c)"
      and n: "map_option firstName (st_result ?s) = Some (c_name c)"
      and l: "map_option lastName (st_result ?s) = Some (c_lastname c)"
      by (simp_all add: agrees_def)
    from n l obtain r where r: "st_result ?s = Some r" "firstName r = c_name c"
        "lastName r = c_lastname c"
      by (cases "st_result ?s") auto
    show ?thesis
      using i r that(2) by (simp add: planfixSearchContact_def finalize_def Let_def)
  qed
  have miss: "\<exists>r. fst (planfixSearchContact cfg g remote cfs a) = Inr r
                \<and> contactId r = 0 \<and> \<not> found r"
    if "snd ?run = None"
  proof -
    from ag that have "falsyId (st_contactId ?s)" by (simp add: agrees_def)
    then have "(case st_contactId ?s of None \<Rightarrow> 0 | Some n \<Rightarrow> n) = 0"
      by (simp add: falsyId_def split: option.splits)
    then show ?thesis
      by (simp add: planfixSearchContact_def finalize_def outerCatch_def emptyResult_def
            Let_def split: sum.split)
  qed
  have whole: "extendFilters a = Inr cfs \<longrightarrow>
      (\<exists>r. fst (planfixSearchContactWithExtender cfg g remote extendFilters a) = Inr r)
      \<and> st_calls (snd (planfixSearchContactWithExtender cfg g remote extendFilters a))
          = fst ?run
      \<and> (snd ?run = Some c \<and> g (c_id c) = Inr u \<longrightarrow>
           fst (planfixSearchContactWithExtender cfg g remote extendFilters a)
             = Inr \<lparr>contactId = c_id c, url = Some u, firstName = c_name c,
                    lastName = c_lastname c, error = None, found = (0 < c_id c),
                    telegram = None\<rparr>)
      \<and> (snd ?run = None \<longrightarrow>
           (\<exists>r. fst (planfixSearchContactWithExtender cfg g remote extendFilters a) = Inr r
                \<and> contactId r = 0 \<and> \<not> found r))"
    using returns calls hit miss
    by (simp add: planfixSearchContactWithExtender_def planfixSearchContact_calls)
  have failed: "settlingContact cfg a checked (Rejected e) = None"
    by (simp add: settlingContact_def)
  have one: "remote (length (st_calls s)) f = Rejected e \<longrightarrow>
        searchWithFilter cfg remote f s
          = (emptyResult\<lparr>error := Some (errorMessageOf e)\<rparr>,
             s\<lparr>st_calls := st_calls s @ [f],
               st_logs := st_logs s @ [FilterError (errorMessageOf e)]\<rparr>)"
    by (simp add: searchWithFilter_def Let_def)
  from whole failed one show ?thesis by blast
qed

theorem remote_failures_caught_cascade_proceeds_witness:
  "noExtraFilters (noArgs\<lparr>a_email := Some ''err@example.com'', a_phone := Some ''+7 999 123''\<rparr>)
     = Inr []
   \<and> runPlan cfgBuiltin (failFirst (Resolved (Some [john])))
        (noArgs\<lparr>a_email := Some ''err@example.com'', a_phone := Some ''+7 999 123''\<rparr>) 0
        (plan cfgBuiltin []
           (noArgs\<lparr>a_email := Some ''err@example.com'', a_phone := Some ''+7 999 123''\<rparr>))
       = ([strFilter 4026 (Some ''err@example.com''), strFilter 4003 (Some ''+7 999 123'')],
          Some john)
   \<and> fst (planfixSearchContactWithExtender cfgBuiltin constUrl
        (failFirst (Resolved (Some [john]))) noExtraFilters
        (noArgs\<lparr>a_email := Some ''err@example.com'', a_phone := Some ''+7 999 123''\<rparr>))
       = Inr \<lparr>contactId = 1, url = Some ''https://example.com/contact'',
              firstName = Some ''John'', lastName = Some ''Doe'', error = None, found = True,
              telegram = None\<rparr>
   \<and> st_calls (snd (planfixSearchContactWithExtender cfgBuiltin constUrl
        (failFirst (Resolved (Some [john]))) noExtraFilters
        (noArgs\<lparr>a_email := Some ''err@example.com'', a_phone := Some ''+7 999 123''\<rparr>)))
       = [strFilter 4026 (Some ''err@example.com''), strFilter 4003 (Some ''+7 999 123'')]
   \<and> st_logs (snd (planfixSearchContactWithExtender cfgBuiltin constUrl
        (failFirst (Resolved (Some [john]))) noExtraFilters
        (noArgs\<lparr>a_email := Some ''err@example.com'', a_phone := Some ''+7 999 123''\<rparr>)))
       = [FilterError ''API fail'']
   \<and> snd (runPlan cfgBuiltin (always (Rejected NonError))
        (noArgs\<lparr>a_email := Some ''err@example.com'', a_telegram := Some ''foo''\<rparr>) 0
        (plan cfgBuiltin []
           (noArgs\<lparr>a_email := Some ''err@example.com'', a_telegram := Some ''foo''\<rparr>)))
       = None
   \<and> fst (planfixSearchContactWithExtender cfgBuiltin constUrl (always (Rejected NonError))
        noExtraFilters
        (noArgs\<lparr>a_email := Some ''err@example.com'', a_telegram := Some ''foo''\<rparr>))
       = Inr \<lparr>contactId = 0, url = Some ''https://example.com/contact'', firstName = None,
              lastName = None, error = None, found = False, telegram = None\<rparr>
   \<and> st_calls (snd (planfixSearchContactWithExtender cfgBuiltin constUrl
        (always (Rejected NonError)) noExtraFilters
        (noArgs\<lparr>a_email := Some ''err@example.com'', a_telegram := Some ''foo''\<rparr>)))
       = strFilter 4026 (Some ''err@example.com'')
         # map (telegramField cfgBuiltin)
             [''foo'', ''@foo'', ''foo'', ''@foo'', ''https://t.me/foo'']
   \<and> st_logs (snd (planfixSearchContactWithExtender cfgBuiltin constUrl
        (always (Rejected NonError)) noExtraFilters
        (noArgs\<lparr>a_email := Some ''err@example.com'', a_telegram := Some ''foo''\<rparr>)))
       = replicate 6 (FilterError ''Unknown error'')"
proof -
  let ?a = "noArgs\<lparr>a_email := Some ''err@example.com'', a_phone := Some ''+7 999 123''\<rparr>"
  let ?b = "noArgs\<lparr>a_email := Some ''err@example.com'', a_telegram := Some ''foo''\<rparr>"
  let ?ra = "failFirst (Resolved (Some [john]))"
  let ?rb = "always (Rejected NonError)"
  let ?u = "''https://example.com/contact''"
  have lc: "toLowerCase ''foo'' = ''foo''" by code_simp
  have pa: "plan cfgBuiltin [] ?a
      = [(False, strFilter 4026 (Some ''err@example.com'')),
         (False, strFilter 4003 (Some ''+7 999 123''))]"
    by (simp add: plan_def noArgs_def truthyStr_def sanitizePhone_def strOf_def
          startsWithAt_def phonePattern_def phoneChar_def isDigit_def isSpace_def)
  have pb: "plan cfgBuiltin [] ?b
      = (False, strFilter 4026 (Some ''err@example.com''))
        # map (\<lambda>v. (False, telegramField cfgBuiltin v))
            [''foo'', ''@foo'', ''foo'', ''@foo'', ''https://t.me/foo'']"
    by (simp add: plan_def noArgs_def truthyStr_def sanitizePhone_def strOf_def
          startsWithAt_def stripAt_def telegramVariants_def cfgBuiltin_def lc)
  have ra: "runPlan cfgBuiltin ?ra ?a 0 (plan cfgBuiltin [] ?a)
      = ([strFilter 4026 (Some ''err@example.com''), strFilter 4003 (Some ''+7 999 123'')],
         Some john)"
    by (simp add: pa runPlan.simps settlingContact_def failFirst_def john_def)
  have rb: "runPlan cfgBuiltin ?rb ?b 0 (plan cfgBuiltin [] ?b)
      = (strFilter 4026 (Some ''err@example.com'')
         # map (telegramField cfgBuiltin)
             [''foo'', ''@foo'', ''foo'', ''@foo'', ''https://t.me/foo''], None)"
    by (simp add: pb runPlan.simps settlingContact_def always_def)
  have ea: "noExtraFilters ?a = Inr []" and eb: "noExtraFilters ?b = Inr []"
    by (simp_all add: noExtraFilters_def)
  have ua: "constUrl (c_id john) = Inr ?u" by (simp add: constUrl_def)
  note A = remote_failures_caught_cascade_proceeds [of noExtraFilters ?a "[]" cfgBuiltin
      constUrl ?ra john ?u False NonError initState "strFilter 4026 (Some ''err@example.com'')"]
  note B = remote_failures_caught_cascade_proceeds [of noExtraFilters ?b "[]" cfgBuiltin
      constUrl ?rb john ?u False NonError initState "strFilter 4026 (Some ''err@example.com'')"]
  from A ea ra ua have resa: "fst (planfixSearchContactWithExtender cfgBuiltin constUrl ?ra
        noExtraFilters ?a)
       = Inr \<lparr>contactId = c_id john, url = Some ?u, firstName = c_name john,
              lastName = c_lastname john, error = None, found = (0 < c_id john),
              telegram = None\<rparr>"
    by simp
  from A ea ra have callsa: "st_calls (snd (planfixSearchContactWithExtender cfgBuiltin
        constUrl ?ra noExtraFilters ?a))
       = [strFilter 4026 (Some ''err@example.com''), strFilter 4003 (Some ''+7 999 123'')]"
    by simp
  from B eb rb have callsb: "st_calls (snd (planfixSearchContactWithExtender cfgBuiltin
        constUrl ?rb noExtraFilters ?b))
       = strFilter 4026 (Some ''err@example.com'')
         # map (telegramField cfgBuiltin)
             [''foo'', ''@foo'', ''foo'', ''@foo'', ''https://t.me/foo'']"
    by simp
  have loga: "st_logs (snd (planfixSearchContactWithExtender cfgBuiltin constUrl ?ra
        noExtraFilters ?a)) = [FilterError ''API fail'']"
    by (simp add: planfixSearchContactWithExtender_def noExtraFilters_def stage_defs
          filter_defs string_defs cfgBuiltin_def constUrl_def failFirst_def noArgs_def john_def)
  have runb: "planfixSearchContactWithExtender cfgBuiltin constUrl ?rb noExtraFilters ?b
       = (Inr \<lparr>contactId = 0, url = Some ?u, firstName = None,
              lastName = None, error = None, found = False, telegram = None\<rparr>,
          \<lparr>st_contactId = Some 0,
            st_result = Some (emptyResult\<lparr>error := Some ''Unknown error''\<rparr>),
            st_calls = strFilter 4026 (Some ''err@example.com'')
              # map (telegramField cfgBuiltin)
                  [''foo'', ''@foo'', ''foo'', ''@foo'', ''https://t.me/foo''],
            st_logs = replicate 6 (FilterError ''Unknown error'')\<rparr>)"
    by (simp add: planfixSearchContactWithExtender_def noExtraFilters_def stage_defs
          filter_defs truthyStr_def strOf_def stripAt_def startsWithAt_def lc cfgBuiltin_def
          constUrl_def always_def noArgs_def eval_nat_numeral telegramField_def)
  show ?thesis
    using ea ra resa callsa loga rb callsb runb by (simp add: john_def)
qed

text \<open>
  An exception of the custom-field extender is not caught: the extender runs before the
  try block, and the call ends with its exception.
\<close>

theorem extender_exception_counterexample:
  "fst (planfixSearchContactWithExtender cfgBuiltin constUrl (always (Resolved (Some [john])))
          failingExtender (noArgs\<lparr>a_email := Some ''john@example.com''\<rparr>))
     = Inl (Error ''bad custom field'')"
  by (simp add: planfixSearchContactWithExtender_def failingExtender_def)

text \<open>
  C6 (amended). Whatever the input and the remote answers, when the URL builder returns,
  the result carries the URL it built from the result's own \<open>contactId\<close>, 0 included.
  When the URL builder throws, the outer catch returns a result with \<open>contactId\<close> 0,
  \<open>found\<close> false and the message as \<open>error\<close>, and that result has no \<open>url\<close>.
\<close>

theorem url_from_contactId_unless_caught:
  "(\<exists>r. fst (planfixSearchContact cfg (\<lambda>i. Inr (u i)) remote cfs a) = Inr r
         \<and> url r = Some (u (contactId r)))
   \<and> (g (case st_contactId (cascade cfg remote cfs a) of None \<Rightarrow> 0 | Some n \<Rightarrow> n) = Inr w
       \<longrightarrow> (\<exists>r. fst (planfixSearchContact cfg g remote cfs a) = Inr r
                \<and> url r = Some w \<and> g (contactId r) = Inr w))
   \<and> (g (case st_contactId (cascade cfg remote cfs a) of None \<Rightarrow> 0 | Some n \<Rightarrow> n) = Inl e
       \<longrightarrow> fst (planfixSearchContact cfg g remote cfs a) = Inr (outerCatch e)
           \<and> contactId (outerCatch e) = 0 \<and> url (outerCatch e) = None
           \<and> found (outerCatch e) = False
           \<and> error (outerCatch e) = Some (errorMessageOf e))"
  by (simp add: planfixSearchContact_def finalize_def outerCatch_def emptyResult_def Let_def)

theorem url_from_contactId_unless_caught_witness:
  "constUrl 0 = Inr ''https://example.com/contact''
   \<and> fst (planfixSearchContact cfgBuiltin constUrl (always (Resolved (Some []))) []
            (noArgs\<lparr>a_email := Some ''nobody@example.com''\<rparr>))
       = Inr \<lparr>contactId = 0, url = Some ''https://example.com/contact'', firstName = None,
              lastName = None, error = None, found = False, telegram = None\<rparr>
   \<and> failingUrl 0 = Inl (Error ''no account'')
   \<and> fst (planfixSearchContact cfgBuiltin failingUrl (always (Resolved (Some []))) []
            (noArgs\<lparr>a_email := Some ''nobody@example.com''\<rparr>))
       = Inr (outerCatch (Error ''no account''))"
proof -
  have c: "cascade cfgBuiltin (always (Resolved (Some []))) []
             (noArgs\<lparr>a_email := Some ''nobody@example.com''\<rparr>)
           = \<lparr>st_contactId = Some 0, st_result = Some emptyResult,
              st_calls = [strFilter 4026 (Some ''nobody@example.com'')], st_logs = []\<rparr>"
    by (simp add: cascade_def emailStage_def phoneStage_def nameStage_def
          nameTranslatedStage_def telegramStage_def customStage_def attempt_def
          searchWithFilter_def initState_def falsyId_def Let_def filter_defs truthyStr_def
          strOf_def always_def noArgs_def)
       (simp add: emptyResult_def)
  show ?thesis
    using url_from_contactId_unless_caught [of cfgBuiltin "\<lambda>i. ''https://example.com/contact''"
        "always (Resolved (Some []))" "[]" "noArgs\<lparr>a_email := Some ''nobody@example.com''\<rparr>"
        constUrl "''https://example.com/contact''" "Error ''no account''"]
      url_from_contactId_unless_caught [of cfgBuiltin "\<lambda>i. ''https://example.com/contact''"
        "always (Resolved (Some []))" "[]" "noArgs\<lparr>a_email := Some ''nobody@example.com''\<rparr>"
        failingUrl "''https://example.com/contact''" "Error ''no account''"]
    by (simp add: c constUrl_def failingUrl_def emptyResult_def planfixSearchContact_def
          finalize_def outerCatch_def)
qed

text \<open>
  On the path through the outer catch the result has no \<open>url\<close>: with a URL builder
  that throws, the search that found a contact still returns the catch block's object.
\<close>

theorem outer_catch_without_url_counterexample:
  "fst (planfixSearchContact cfgBuiltin failingUrl (always (Resolved (Some [john]))) []
          (noArgs\<lparr>a_email := Some ''john@example.com''\<rparr>))
     = Inr \<lparr>contactId = 0, url = None, firstName = None, lastName = None,
            error = Some ''no account'', found = False, telegram = None\<rparr>"
  by (simp add: stage_defs filter_defs cfgBuiltin_def failingUrl_def always_def noArgs_def john_def truthyStr_def strOf_def)

text \<open>
  C7. A phone that fails the pattern or starts with @ is dropped without an error: the
  search returns what it returns without the phone, the phone stage makes no call, and no
  filter of the phone type 4003 is sent, apart from one that the custom-field extender may
  have supplied.
\<close>

theorem invalid_phone_never_sent:
  assumes "a_phone a = Some p" and "\<not> phonePattern p \<or> startsWithAt p"
  shows "planfixSearchContact cfg g remote cfs a
           = planfixSearchContact cfg g remote cfs (a\<lparr>a_phone := None\<rparr>)
         \<and> phoneStage cfg remote a s = s
         \<and> list_all (\<lambda>f. f_type f \<noteq> 4003 \<or> f \<in> set cfs)
             (st_calls (snd (planfixSearchContact cfg g remote cfs a)))"
proof -
  have san: "\<not> truthyStr (sanitizePhone (a_phone a))"
    using assms by (auto simp: sanitizePhone_def truthyStr_def strOf_def)
  have p2: "phoneStage cfg remote a t = t" for t
    using san by (simp add: phoneStage_def byPhone_def)
  have q2: "phoneStage cfg remote (a\<lparr>a_phone := None\<rparr>) t = t" for t
    by (simp add: phoneStage_def byPhone_def sanitizePhone_def truthyStr_def)
  have p1: "cascade cfg remote cfs a = cascade cfg remote cfs (a\<lparr>a_phone := None\<rparr>)"
    by (simp add: cascade_def phone_irrelevant p2 q2)
  have p3: "list_all (\<lambda>f. f_type f \<noteq> 4003 \<or> f \<in> set cfs) (st_calls (cascade cfg remote cfs a))"
    using san
    by (intro cascade_all) (auto simp: strFilter_def list_all_iff dest: telegramFilter_type)
  show ?thesis
    using p1 p2 p3 unfolding planfixSearchContact_calls
    by (simp add: planfixSearchContact_def)
qed

theorem invalid_phone_never_sent_witness:
  "a_phone (noArgs\<lparr>a_phone := Some ''@foo'', a_telegram := Some ''foo''\<rparr>) = Some ''@foo''
   \<and> startsWithAt ''@foo'' \<and> \<not> phonePattern ''@foo''
   \<and> st_calls (snd (planfixSearchContact cfgBuiltin constUrl (always (Resolved (Some [fooBar])))
        [] (noArgs\<lparr>a_phone := Some ''@foo'', a_telegram := Some ''foo''\<rparr>)))
       = [\<lparr>f_type = 4226, f_operator = ''equal'', f_value = Some (JStr ''foo''),
           f_field = None\<rparr>]
   \<and> planfixSearchContact cfgBuiltin constUrl (always (Resolved (Some [fooBar]))) []
        (noArgs\<lparr>a_phone := Some ''@foo'', a_telegram := Some ''foo''\<rparr>)
       = planfixSearchContact cfgBuiltin constUrl (always (Resolved (Some [fooBar]))) []
           (noArgs\<lparr>a_phone := Some ''@foo'', a_telegram := Some ''foo'', a_phone := None\<rparr>)"
proof -
  have h1: "a_phone (noArgs\<lparr>a_phone := Some ''@foo'', a_telegram := Some ''foo''\<rparr>) = Some ''@foo''"
    by simp
  have h2: "\<not> phonePattern ''@foo'' \<or> startsWithAt ''@foo''"
    by (simp add: startsWithAt_def)
  have h3: "startsWithAt ''@foo'' \<and> \<not> phonePattern ''@foo''"
    by (simp add: startsWithAt_def phonePattern_def)
  have run: "st_calls (snd (planfixSearchContact cfgBuiltin constUrl
        (always (Resolved (Some [fooBar])))
        [] (noArgs\<lparr>a_phone := Some ''@foo'', a_telegram := Some ''foo''\<rparr>)))
       = [\<lparr>f_type = 4226, f_operator = ''equal'', f_value = Some (JStr ''foo''),
           f_field = None\<rparr>]"
    by (simp add: stage_defs filter_defs string_defs cfgBuiltin_def constUrl_def always_def noArgs_def fooBar_def)
  from invalid_phone_never_sent [OF h1 h2, of cfgBuiltin constUrl
         "always (Resolved (Some [fooBar]))" "[]" initState] h1 h3 run
  show ?thesis by simp
qed

text \<open>
  C8. The name stage, and likewise the translated-name stage, makes a remote call only
  for a name that contains a space (so whitespace): for a name without a space the stage
  leaves the state as it is, and every filter of the name type 4001 that a search sends,
  apart from those of the custom-field extender, carries a name with a space in it.
\<close>

theorem name_filter_needs_space:
  "(st_calls (nameStage cfg remote a s) \<noteq> st_calls s \<longrightarrow> list_ex isSpace (strOf (a_name a)))
   \<and> (\<not> includesSpace (strOf (a_name a)) \<longrightarrow> nameStage cfg remote a s = s)
   \<and> (st_calls (nameTranslatedStage cfg remote a s) \<noteq> st_calls s
        \<longrightarrow> list_ex isSpace (strOf (a_nameTranslated a)))
   \<and> (\<not> includesSpace (strOf (a_nameTranslated a)) \<longrightarrow> nameTranslatedStage cfg remote a s = s)
   \<and> list_all (\<lambda>f. f_type f \<noteq> 4001 \<or> f \<in> set cfs
          \<or> (f = strFilter 4001 (a_name a) \<and> includesSpace (strOf (a_name a)))
          \<or> (f = strFilter 4001 (a_nameTranslated a)
               \<and> includesSpace (strOf (a_nameTranslated a))))
        (st_calls (snd (planfixSearchContact cfg g remote cfs a)))"
proof -
  have n: "\<not> includesSpace (strOf (a_name a)) \<Longrightarrow> nameStage cfg remote a s = s"
    using includesSpace_trim [of "strOf (a_name a)"]
    by (auto simp: nameStage_def byName_def)
  have t: "\<not> includesSpace (strOf (a_nameTranslated a)) \<Longrightarrow> nameTranslatedStage cfg remote a s = s"
    using includesSpace_trim [of "strOf (a_nameTranslated a)"]
    by (auto simp: nameTranslatedStage_def byNameTranslated_def)
  have n': "st_calls (nameStage cfg remote a s) \<noteq> st_calls s \<Longrightarrow> list_ex isSpace (strOf (a_name a))"
    using n includesSpace_isSpace [of "strOf (a_name a)"]
    by (cases "includesSpace (strOf (a_name a))") simp_all
  have t': "st_calls (nameTranslatedStage cfg remote a s) \<noteq> st_calls s
              \<Longrightarrow> list_ex isSpace (strOf (a_nameTranslated a))"
    using t includesSpace_isSpace [of "strOf (a_nameTranslated a)"]
    by (cases "includesSpace (strOf (a_nameTranslated a))") simp_all
  have all: "list_all (\<lambda>f. f_type f \<noteq> 4001 \<or> f \<in> set cfs
          \<or> (f = strFilter 4001 (a_name a) \<and> includesSpace (strOf (a_name a)))
          \<or> (f = strFilter 4001 (a_nameTranslated a)
               \<and> includesSpace (strOf (a_nameTranslated a))))
        (st_calls (cascade cfg remote cfs a))"
    by (intro cascade_all)
       (auto simp: strFilter_def list_all_iff dest: telegramFilter_type includesSpace_trim)
  show ?thesis
    unfolding planfixSearchContact_calls using n t n' t' all by blast
qed

theorem name_filter_needs_space_witness:
  "\<not> includesSpace (strOf (a_name (noArgs\<lparr>a_name := Some ''Madonna'', a_nameTranslated := Some ''John Doe''\<rparr>)))
   \<and> nameStage cfgBuiltin (always (Resolved (Some [john])))
        (noArgs\<lparr>a_name := Some ''Madonna'', a_nameTranslated := Some ''John Doe''\<rparr>) initState
       = initState
   \<and> st_calls (snd (planfixSearchContact cfgBuiltin constUrl (always (Resolved (Some [john]))) []
        (noArgs\<lparr>a_name := Some ''Madonna'', a_nameTranslated := Some ''John Doe''\<rparr>)))
       = [strFilter 4001 (Some ''John Doe'')]
   \<and> st_calls (nameTranslatedStage cfgBuiltin (always (Resolved (Some [john])))
        (noArgs\<lparr>a_name := Some ''Madonna'', a_nameTranslated := Some ''John Doe''\<rparr>) initState)
       \<noteq> st_calls initState
   \<and> list_ex isSpace ''John Doe''"
  using name_filter_needs_space [of cfgBuiltin "always (Resolved (Some [john]))"
     "noArgs\<lparr>a_name := Some ''Madonna'', a_nameTranslated := Some ''John Doe''\<rparr>" initState
     "[]" constUrl]
  by (simp add: stage_defs filter_defs string_defs cfgBuiltin_def constUrl_def always_def noArgs_def john_def)

text \<open>
  C9. With no email, no valid phone, no name and no translated name with a space in it, no
  telegram and no custom-field filter, the search makes no remote call and returns a
  result with \<open>contactId\<close> 0 and \<open>found\<close> false.
\<close>

theorem nothing_to_search_by:
  assumes "\<not> truthyStr (a_email a)"
    and "\<not> (truthyStr (a_phone a) \<and> \<not> startsWithAt (strOf (a_phone a))
             \<and> phonePattern (strOf (a_phone a)))"
    and "\<not> includesSpace (strOf (a_name a))"
    and "\<not> includesSpace (strOf (a_nameTranslated a))"
    and "\<not> truthyStr (a_telegram a)"
  shows "\<exists>r. fst (planfixSearchContact cfg g remote [] a) = Inr r
             \<and> contactId r = 0 \<and> \<not> found r
             \<and> st_calls (snd (planfixSearchContact cfg g remote [] a)) = []"
proof -
  have san: "\<not> truthyStr (sanitizePhone (a_phone a))"
    using assms(2) by (auto simp: sanitizePhone_def truthyStr_def split: option.splits)
  have n: "\<not> includesSpace (trim (strOf (a_name a)))"
    and t: "\<not> includesSpace (trim (strOf (a_nameTranslated a)))"
    using assms(3,4) includesSpace_trim by blast+
  have c: "cascade cfg remote [] a = initState"
    using assms(1,5) san n t
    by (simp add: cascade_def emailStage_def phoneStage_def nameStage_def
          nameTranslatedStage_def telegramStage_def customStage_def byEmail_def byPhone_def
          byName_def byNameTranslated_def)
  show ?thesis
    by (simp add: planfixSearchContact_def c finalize_def initState_def outerCatch_def
          emptyResult_def Let_def split: sum.split)
qed

theorem nothing_to_search_by_witness:
  "\<not> truthyStr (a_email (noArgs\<lparr>a_phone := Some ''12'', a_name := Some ''Cher''\<rparr>))
   \<and> \<not> phonePattern ''12''
   \<and> \<not> includesSpace ''Cher''
   \<and> planfixSearchContact cfgBuiltin constUrl (always (Resolved (Some [john]))) []
        (noArgs\<lparr>a_phone := Some ''12'', a_name := Some ''Cher''\<rparr>)
       = (Inr \<lparr>contactId = 0, url = Some ''https://example.com/contact'', firstName = None,
               lastName = None, error = None, found = False, telegram = None\<rparr>,
          initState)"
proof -
  let ?a = "noArgs\<lparr>a_phone := Some ''12'', a_name := Some ''Cher''\<rparr>"
  have h1: "\<not> truthyStr (a_email ?a)" by (simp add: noArgs_def truthyStr_def)
  have h2: "\<not> (truthyStr (a_phone ?a) \<and> \<not> startsWithAt (strOf (a_phone ?a))
             \<and> phonePattern (strOf (a_phone ?a)))"
    by (simp add: phonePattern_def strOf_def)
  have h3: "\<not> includesSpace (strOf (a_name ?a))" by (simp add: includesSpace_def strOf_def)
  have h4: "\<not> includesSpace (strOf (a_nameTranslated ?a))"
    by (simp add: includesSpace_def strOf_def noArgs_def)
  have h5: "\<not> truthyStr (a_telegram ?a)" by (simp add: noArgs_def truthyStr_def)
  from nothing_to_search_by [OF h1 h2 h3 h4 h5, of cfgBuiltin constUrl
         "always (Resolved (Some [john]))"]
  show ?thesis
    by (simp add: stage_defs filter_defs string_defs cfgBuiltin_def constUrl_def always_def noArgs_def john_def)
qed

text \<open>
  C10. When the name stage, or the translated-name stage, runs with a telegram value
  supplied and its response has a first contact with a positive id and no extractable
  telegram, the cross-check does nothing: the stage ends in the state of the successful
  attempt, with that contact's id, and no later stage changes it.
\<close>

theorem name_match_kept_without_contact_telegram:
  "(falsyId (st_contactId s) \<and> truthyStr (a_name a)
      \<and> includesSpace (trim (strOf (a_name a))) \<and> truthyStr (a_telegram a)
      \<and> remote (length (st_calls s)) (strFilter 4001 (a_name a)) = Resolved (Some (c # cs))
      \<and> 0 < c_id c \<and> extractTelegramFromContact cfg c = []
    \<longrightarrow> nameStage cfg remote a s = attempt cfg remote (strFilter 4001 (a_name a)) s
        \<and> st_contactId (nameStage cfg remote a s) = Some (c_id c)
        \<and> customStage cfg remote cfs (telegramStage cfg remote a
            (nameTranslatedStage cfg remote a (nameStage cfg remote a s)))
           = nameStage cfg remote a s)
   \<and> (falsyId (st_contactId s) \<and> truthyStr (a_nameTranslated a)
      \<and> includesSpace (trim (strOf (a_nameTranslated a))) \<and> truthyStr (a_telegram a)
      \<and> remote (length (st_calls s)) (strFilter 4001 (a_nameTranslated a))
          = Resolved (Some (c # cs))
      \<and> 0 < c_id c \<and> extractTelegramFromContact cfg c = []
    \<longrightarrow> nameTranslatedStage cfg remote a s
          = attempt cfg remote (strFilter 4001 (a_nameTranslated a)) s
        \<and> st_contactId (nameTranslatedStage cfg remote a s) = Some (c_id c)
        \<and> customStage cfg remote cfs (telegramStage cfg remote a
            (nameTranslatedStage cfg remote a s))
           = nameTranslatedStage cfg remote a s)"
proof -
  have keep: "remote (length (st_calls s)) f = Resolved (Some (c # cs)) \<Longrightarrow> 0 < c_id c \<Longrightarrow>
      \<not> falsyId (st_contactId (attempt cfg remote f s))
      \<and> st_contactId (attempt cfg remote f s) = Some (c_id c)" for f
    by (simp add: attempt_matched falsyId_def)
  show ?thesis
    using keep [of "strFilter 4001 (a_name a)"] keep [of "strFilter 4001 (a_nameTranslated a)"]
    by (auto simp: nameStage_def nameTranslatedStage_def byName_def byNameTranslated_def
          nameLike_checked stage_skip)
qed

theorem name_match_kept_without_contact_telegram_witness:
  "includesSpace (trim ''John Doe'')
   \<and> extractTelegramFromContact cfgCustom john = []
   \<and> nameStage cfgCustom (always (Resolved (Some [john])))
        (noArgs\<lparr>a_name := Some ''John Doe'', a_telegram := Some ''jdoe''\<rparr>) initState
       = \<lparr>st_contactId = Some 1,
          st_result = Some \<lparr>contactId = 1, url = None, firstName = Some ''John'',
            lastName = Some ''Doe'', error = None, found = True, telegram = None\<rparr>,
          st_calls = [strFilter 4001 (Some ''John Doe'')], st_logs = []\<rparr>
   \<and> st_contactId (nameTranslatedStage cfgCustom (always (Resolved (Some [john])))
        (noArgs\<lparr>a_nameTranslated := Some ''John Doe'', a_telegram := Some ''jdoe''\<rparr>)
        initState) = Some 1"
proof -
  have t: "includesSpace (trim ''John Doe'')"
    by (simp add: includesSpace_def trim_def isSpace_def)
  have e: "extractTelegramFromContact cfgCustom john = []"
    by (simp add: extractTelegramFromContact_def cfgCustom_def john_def)
  have at: "attempt cfgCustom (always (Resolved (Some [john]))) f initState
       = \<lparr>st_contactId = Some 1,
          st_result = Some \<lparr>contactId = 1, url = None, firstName = Some ''John'',
            lastName = Some ''Doe'', error = None, found = True, telegram = None\<rparr>,
          st_calls = [f], st_logs = []\<rparr>" for f
    by (simp add: attempt_def searchWithFilter_def always_def e Let_def emptyResult_def
          initState_def) (simp add: john_def)
  show ?thesis
    using name_match_kept_without_contact_telegram [of initState
        "noArgs\<lparr>a_name := Some ''John Doe'', a_telegram := Some ''jdoe''\<rparr>"
        "always (Resolved (Some [john]))" john "[]" cfgCustom "[]"]
      name_match_kept_without_contact_telegram [of initState
        "noArgs\<lparr>a_nameTranslated := Some ''John Doe'', a_telegram := Some ''jdoe''\<rparr>"
        "always (Resolved (Some [john]))" john "[]" cfgCustom "[]"]
      e t
    by (simp add: at falsyId_def truthyStr_def strOf_def always_def)
       (simp add: initState_def john_def)
qed

end
